theory Spec2Isabelle
  imports Main
begin

section \<open>Event kinds (filters.cjs, KINDS)\<close>

text \<open>
  The numeric event kinds of the protocol. Kinds are JavaScript numbers that carry
  integers; they are modelled as \<open>int\<close>.
\<close>

definition TEXT_NOTE :: int where "TEXT_NOTE = 1"
definition DM_ENCRYPTED :: int where "DM_ENCRYPTED = 4"
definition REACTION :: int where "REACTION = 7"
definition DVM_REQUEST_BASE :: int where "DVM_REQUEST_BASE = 5000"
definition DVM_RESULT_BASE :: int where "DVM_RESULT_BASE = 6000"
definition DVM_FEEDBACK :: int where "DVM_FEEDBACK = 7000"
definition ZAP_RECEIPT :: int where "ZAP_RECEIPT = 9735"
definition ZAP_REQUEST :: int where "ZAP_REQUEST = 9734"
definition LABEL :: int where "LABEL = 1985"
definition GIFT_WRAP :: int where "GIFT_WRAP = 1059"
definition SEAL :: int where "SEAL = 13"
definition AGENT_SERVICE :: int where "AGENT_SERVICE = 38990"
definition TASK :: int where "TASK = 30950"
definition BID :: int where "BID = 950"
definition DELIVERY :: int where "DELIVERY = 951"
definition RESOLUTION :: int where "RESOLUTION = 952"
definition COMMENT :: int where "COMMENT = 1111"

lemmas KINDS_defs =
  TEXT_NOTE_def DM_ENCRYPTED_def REACTION_def DVM_REQUEST_BASE_def DVM_RESULT_BASE_def
  DVM_FEEDBACK_def ZAP_RECEIPT_def ZAP_REQUEST_def LABEL_def GIFT_WRAP_def SEAL_def
  AGENT_SERVICE_def TASK_def BID_def DELIVERY_def RESOLUTION_def COMMENT_def

section \<open>Data model (index.d.cts)\<close>

text \<open>
  \<open>NostrEvent\<close> of the type declarations. The field \<open>created_at\<close> is a Unix
  time in seconds; \<open>tags\<close> is an array of string arrays.
\<close>

record NostrEvent =
  ev_id :: string
  ev_pubkey :: string
  ev_kind :: int
  ev_created_at :: int
  ev_tags :: "string list list"
  ev_content :: string
  ev_sig :: string

text \<open>
  \<open>Classification\<close>: what \<open>classifyEvent\<close> returns. Type and priority are the
  string literals of the source; \<open>dvmKind\<close> is present on two branches only.
\<close>

record Classification =
  c_type :: string
  c_priority :: string
  c_dvmKind :: "int option"

text \<open>The thirteen values of \<open>NotificationType\<close> and the three of \<open>Priority\<close>.\<close>

definition NotificationTypes :: "string list" where
  "NotificationTypes =
     [''mention'', ''dm'', ''dvm_request'', ''dvm_result'', ''dvm_feedback'',
      ''zap'', ''reaction'', ''trust'', ''trust_network'',
      ''marketplace_bid'', ''marketplace_delivery'', ''marketplace_resolution'',
      ''unknown'']"

definition Priorities :: "string list" where
  "Priorities = [''high'', ''medium'', ''low'']"

section \<open>JavaScript numbers\<close>

text \<open>
  Kinds and timestamps are JavaScript numbers, that is IEEE 754 doubles; the integers
  of this theory stand for the numbers whose value is an integer. Comparisons of doubles
  are exact; sums and products are rounded to the nearest double, ties to the even
  significand of 53 bits. \<open>to_double\<close> is that rounding on integers: it keeps the 53
  leading bits. Results of magnitude \<open>2 ^ 1024\<close> and more, where a double is
  \<open>Infinity\<close>, are outside the model.
\<close>

function drop_bits :: "int \<Rightarrow> nat" where
  "drop_bits m = (if m < 2 ^ 53 then 0 else Suc (drop_bits (m div 2)))"
  by pat_completeness auto
termination
  by (relation "measure nat") auto

declare drop_bits.simps [simp del]

definition to_double :: "int \<Rightarrow> int" where
  "to_double x =
     (let m = \<bar>x\<bar>;
          e = drop_bits m;
          q = m div 2 ^ e;
          r = m mod 2 ^ e;
          q' = (if 2 * r > 2 ^ e \<or> (2 * r = 2 ^ e \<and> odd q) then q + 1 else q)
      in sgn x * (q' * 2 ^ e))"

section \<open>classifyEvent (filters.cjs)\<close>

text \<open>
  Reading an array by index: JavaScript gives \<open>undefined\<close> out of range, which is
  \<open>None\<close> here, and \<open>undefined === s\<close> is false for every string \<open>s\<close>.
\<close>

fun at_index :: "'a list \<Rightarrow> nat \<Rightarrow> 'a option" where
  "at_index [] _ = None"
| "at_index (x # xs) 0 = Some x"
| "at_index (x # xs) (Suc n) = at_index xs n"

text \<open>\<^verbatim>\<open>event.tags.some(t => t[0] === 'p' && t[1] === myPubkey)\<close>\<close>

definition isAboutMe :: "string list list \<Rightarrow> string \<Rightarrow> bool" where
  "isAboutMe ts myPubkey =
     list_ex (\<lambda>t. at_index t 0 = Some ''p'' \<and> at_index t 1 = Some myPubkey) ts"

text \<open>
  The chain of \<open>if\<close> statements of the source, in its order. Both copies of the
  module in filters.cjs hold the same text of this function.
\<close>

definition classifyEvent :: "NostrEvent \<Rightarrow> string \<Rightarrow> Classification" where
  "classifyEvent event myPubkey =
     (let kind = ev_kind event in
      if kind = DM_ENCRYPTED \<or> kind = GIFT_WRAP then
        \<lparr>c_type = ''dm'', c_priority = ''high'', c_dvmKind = None\<rparr>
      else if kind \<ge> 5000 \<and> kind < 6000 then
        \<lparr>c_type = ''dvm_request'', c_priority = ''high'', c_dvmKind = Some kind\<rparr>
      else if kind \<ge> 6000 \<and> kind < 7000 then
        \<lparr>c_type = ''dvm_result'', c_priority = ''medium'', c_dvmKind = Some (kind - 1000)\<rparr>
      else if kind = DVM_FEEDBACK then
        \<lparr>c_type = ''dvm_feedback'', c_priority = ''low'', c_dvmKind = None\<rparr>
      else if kind = ZAP_RECEIPT then
        \<lparr>c_type = ''zap'', c_priority = ''medium'', c_dvmKind = None\<rparr>
      else if kind = LABEL then
        (if isAboutMe (ev_tags event) myPubkey then
           \<lparr>c_type = ''trust'', c_priority = ''medium'', c_dvmKind = None\<rparr>
         else
           \<lparr>c_type = ''trust_network'', c_priority = ''low'', c_dvmKind = None\<rparr>)
      else if kind = BID then
        \<lparr>c_type = ''marketplace_bid'', c_priority = ''high'', c_dvmKind = None\<rparr>
      else if kind = DELIVERY then
        \<lparr>c_type = ''marketplace_delivery'', c_priority = ''high'', c_dvmKind = None\<rparr>
      else if kind = RESOLUTION then
        \<lparr>c_type = ''marketplace_resolution'', c_priority = ''high'', c_dvmKind = None\<rparr>
      else if kind = REACTION then
        \<lparr>c_type = ''reaction'', c_priority = ''low'', c_dvmKind = None\<rparr>
      else if kind = TEXT_NOTE \<or> kind = COMMENT then
        \<lparr>c_type = ''mention'', c_priority = ''medium'', c_dvmKind = None\<rparr>
      else
        \<lparr>c_type = ''unknown'', c_priority = ''low'', c_dvmKind = None\<rparr>)"

section \<open>buildFilters (filters.cjs)\<close>

text \<open>
  \<open>Channels\<close>: every toggle is optional (\<open>None\<close> is an absent key) and the
  destructuring default of an absent toggle is \<open>true\<close>. \<open>dvmKinds\<close> is the optional
  explicit list of request kinds.
\<close>

record Channels =
  mentions :: "bool option"
  dms :: "bool option"
  dvmRequests :: "bool option"
  dvmResults :: "bool option"
  zaps :: "bool option"
  reactions :: "bool option"
  trust :: "bool option"
  marketplace :: "bool option"
  dvmKinds :: "int list option"

definition enabled :: "bool option \<Rightarrow> bool" where
  "enabled c = (case c of None \<Rightarrow> True | Some b \<Rightarrow> b)"

text \<open>
  A subscription filter: \<open>kinds\<close>, the \<open>#p\<close> tag constraint, the optional \<open>#L\<close>
  constraint and the optional \<open>since\<close> bound.
\<close>

record QueryFilter =
  f_kinds :: "int list"
  f_p :: "string list"
  f_L :: "string list option"
  f_since :: "int option"

text \<open>
  \<^verbatim>\<open>const sinceObj = since ? { since } : {};\<close>
  The test is JavaScript truthiness: \<open>null\<close> (here \<open>None\<close>) and the number \<open>0\<close> are
  both falsy, so neither puts a \<open>since\<close> field on a filter. Timestamps are integers
  here (\<open>NaN\<close>, the other falsy number, is outside the model).
\<close>

definition sinceObj :: "int option \<Rightarrow> int option" where
  "sinceObj s = (case s of None \<Rightarrow> None | Some t \<Rightarrow> if t = 0 then None else Some t)"

definition mkFilter :: "int list \<Rightarrow> string \<Rightarrow> int option \<Rightarrow> QueryFilter" where
  "mkFilter ks pubkey s =
     \<lparr>f_kinds = ks, f_p = [pubkey], f_L = None, f_since = sinceObj s\<rparr>"

text \<open>
  \<^verbatim>\<open>for (let k = lo; k < hi; k++) acc.push(k);\<close>
  the loop of the first copy of the module.
\<close>

function push_range :: "int \<Rightarrow> int \<Rightarrow> int list \<Rightarrow> int list" where
  "push_range k hi acc = (if k < hi then push_range (k + 1) hi (acc @ [k]) else acc)"
  by pat_completeness auto
termination
  by (relation "measure (\<lambda>(k, hi, acc). nat (hi - k))") auto

definition commonDvmKinds :: "int list" where
  "commonDvmKinds =
     [5000, 5001, 5002, 5003, 5004, 5005,
      5050,
      5100,
      5200,
      5250,
      5300,
      5301, 5302,
      5400, 5401,
      5500, 5501,
      5900, 5901, 5902, 5903, 5904, 5905]"

definition commonResultKinds :: "int list" where
  "commonResultKinds =
     [6000, 6001, 6002, 6003, 6004, 6005,
      6050, 6100, 6200, 6250, 6300, 6301, 6302,
      6400, 6401, 6500, 6501,
      6900, 6901, 6902, 6903, 6904, 6905]"

text \<open>
  filters.cjs holds two copies of the module. \<open>buildFilters\<close> is the later copy
  (lines 255-390), the one the test suite exercises: its work-request and
  work-result channels take \<open>channels.dvmKinds\<close> when it is an array and a curated
  list otherwise. Each \<open>if\<close> of the source pushes onto \<open>filters\<close>; the pushes are
  the summands of the concatenation, in the source's order.
\<close>

definition buildFilters :: "string \<Rightarrow> Channels \<Rightarrow> int option \<Rightarrow> QueryFilter list" where
  "buildFilters pubkey channels s =
     (if enabled (mentions channels)
        then [mkFilter [TEXT_NOTE, COMMENT] pubkey s] else []) @
     (if enabled (dms channels)
        then [mkFilter [DM_ENCRYPTED] pubkey s, mkFilter [GIFT_WRAP] pubkey s] else []) @
     (if enabled (dvmRequests channels)
        then (case dvmKinds channels of
                Some ks \<Rightarrow> [mkFilter ks pubkey s]
              | None \<Rightarrow> [mkFilter commonDvmKinds pubkey s])
        else []) @
     (if enabled (dvmResults channels)
        then (case dvmKinds channels of
                Some ks \<Rightarrow> [mkFilter (map (\<lambda>k. to_double (k + 1000)) ks) pubkey s]
              | None \<Rightarrow> [mkFilter commonResultKinds pubkey s])
        else []) @
     (if enabled (zaps channels) then [mkFilter [ZAP_RECEIPT] pubkey s] else []) @
     (if enabled (reactions channels) then [mkFilter [REACTION] pubkey s] else []) @
     (if enabled (trust channels)
        then [(mkFilter [LABEL] pubkey s)\<lparr>f_L := Some [''ai.wot'']\<rparr>] else []) @
     (if enabled (marketplace channels)
        then [mkFilter [BID, DELIVERY, RESOLUTION] pubkey s] else [])"

text \<open>
  \<open>buildFilters_v1\<close> is the earlier copy (lines 48-147): it never reads
  \<open>dvmKinds\<close> and fills the two DVM kind lists by a counting loop.
\<close>

definition buildFilters_v1 :: "string \<Rightarrow> Channels \<Rightarrow> int option \<Rightarrow> QueryFilter list" where
  "buildFilters_v1 pubkey channels s =
     (if enabled (mentions channels)
        then [mkFilter [TEXT_NOTE, COMMENT] pubkey s] else []) @
     (if enabled (dms channels)
        then [mkFilter [DM_ENCRYPTED] pubkey s, mkFilter [GIFT_WRAP] pubkey s] else []) @
     (if enabled (dvmRequests channels)
        then [mkFilter (push_range 5000 5100 []) pubkey s] else []) @
     (if enabled (dvmResults channels)
        then [mkFilter (push_range 6000 6100 []) pubkey s] else []) @
     (if enabled (zaps channels) then [mkFilter [ZAP_RECEIPT] pubkey s] else []) @
     (if enabled (reactions channels) then [mkFilter [REACTION] pubkey s] else []) @
     (if enabled (trust channels)
        then [(mkFilter [LABEL] pubkey s)\<lparr>f_L := Some [''ai.wot'']\<rparr>] else []) @
     (if enabled (marketplace channels)
        then [mkFilter [BID, DELIVERY, RESOLUTION] pubkey s] else [])"

text \<open>Channel configurations used below: the default one and the all-disabled one.\<close>

definition defaultChannels :: Channels where
  "defaultChannels =
     \<lparr>mentions = None, dms = None, dvmRequests = None, dvmResults = None, zaps = None,
      reactions = None, trust = None, marketplace = None, dvmKinds = None\<rparr>"

definition allDisabled :: "int list option \<Rightarrow> Channels" where
  "allDisabled ks =
     \<lparr>mentions = Some False, dms = Some False, dvmRequests = Some False,
      dvmResults = Some False, zaps = Some False, reactions = Some False,
      trust = Some False, marketplace = Some False, dvmKinds = ks\<rparr>"

section \<open>The ingestion pipeline (inbox.cjs, createInbox)\<close>

text \<open>
  \<open>Notification\<close>: the object \<open>handleEvent\<close> builds. The spread
  \<^verbatim>\<open>...classification\<close> at its end writes \<open>type\<close> and \<open>priority\<close> again, with
  the same values, and adds \<open>dvmKind\<close> when the classification has one.
  \<open>createdAt\<close> is the product \<^verbatim>\<open>event.created_at * 1000\<close> of two doubles.
\<close>

record Notification =
  n_id :: string
  n_type :: string
  n_priority :: string
  n_from :: string
  n_content :: string
  n_kind :: int
  n_tags :: "string list list"
  n_createdAt :: int
  n_raw :: NostrEvent
  n_dvmKind :: "int option"

definition mkNotification :: "NostrEvent \<Rightarrow> Classification \<Rightarrow> Notification" where
  "mkNotification event classification =
     \<lparr>n_id = ev_id event,
      n_type = c_type classification,
      n_priority = c_priority classification,
      n_from = ev_pubkey event,
      n_content = ev_content event,
      n_kind = ev_kind event,
      n_tags = ev_tags event,
      n_createdAt = to_double (ev_created_at event * 1000),
      n_raw = event,
      n_dvmKind = c_dvmKind classification\<rparr>"

text \<open>
  User code (a listener registered on the emitter, or the \<open>onEvent\<close> callback) is a
  function of the notification that either returns or throws. What else user code does
  is outside the model.
\<close>

datatype outcome = Returns | Throws

record Listener =
  l_topic :: string
  l_name :: string
  l_handler :: "Notification \<Rightarrow> outcome"

text \<open>
  The state of one inbox: the \<open>seen\<close> set as the list of its members in insertion
  order (the iteration order of a JavaScript \<open>Set\<close>), the watermark
  \<open>latestTimestamp\<close>, the listeners registered on the emitter in registration order,
  and three logs that make the effects observable: every call of \<open>emitter.emit\<close>
  (topic and argument), every listener invocation (topic, listener, argument) and every
  invocation of \<open>onEvent\<close>.
\<close>

record InboxState =
  seen :: "string list"
  latestTimestamp :: int
  listeners :: "Listener list"
  emitted :: "(string \<times> Notification) list"
  delivered :: "(string \<times> string \<times> Notification) list"
  onEvent_calls :: "Notification list"

record InboxOptions =
  o_pubkey :: string
  o_dedup :: bool
  o_onEvent :: "(Notification \<Rightarrow> outcome) option"

subsection \<open>The Set operations used on \<open>seen\<close>\<close>

definition set_has :: "string list \<Rightarrow> string \<Rightarrow> bool" where
  "set_has xs x = (x \<in> set xs)"

definition set_add :: "string list \<Rightarrow> string \<Rightarrow> string list" where
  "set_add xs x = (if x \<in> set xs then xs else xs @ [x])"

definition set_delete :: "string list \<Rightarrow> string \<Rightarrow> string list" where
  "set_delete xs x = removeAll x xs"

text \<open>
  \<^verbatim>\<open>
  if (seen.size > 10000) {
    const arr = Array.from(seen);
    for (let i = 0; i < 5000; i++) seen.delete(arr[i]);
  }
  \<close>
  \<open>arr[i]\<close> out of range is \<open>undefined\<close>, which is no member of the set, so that
  \<open>delete\<close> changes nothing there.
\<close>

definition delete_at :: "string list \<Rightarrow> nat \<Rightarrow> string list \<Rightarrow> string list" where
  "delete_at arr i s = (case at_index arr i of None \<Rightarrow> s | Some x \<Rightarrow> set_delete s x)"

definition trim_seen :: "string list \<Rightarrow> string list" where
  "trim_seen s =
     (if length s > 10000 then (let arr = s in fold (delete_at arr) [0..<5000] s) else s)"

subsection \<open>\<open>emitter.emit\<close> (Node's EventEmitter)\<close>

text \<open>
  Node's \<open>emit\<close> calls the listeners of the topic synchronously, in registration
  order, inside no try block: when a listener throws, the listeners after it are not
  called and the exception leaves \<open>emit\<close>. The special case of the topic
  \<open>error\<close> without listeners is left out: \<open>handleEvent\<close> never emits on it.
\<close>

fun call_listeners ::
  "Listener list \<Rightarrow> Notification \<Rightarrow> (string \<times> string \<times> Notification) list \<Rightarrow>
     outcome \<times> (string \<times> string \<times> Notification) list" where
  "call_listeners [] n log = (Returns, log)"
| "call_listeners (l # ls) n log =
     (case l_handler l n of
        Throws \<Rightarrow> (Throws, log @ [(l_topic l, l_name l, n)])
      | Returns \<Rightarrow> call_listeners ls n (log @ [(l_topic l, l_name l, n)]))"

definition emit :: "string \<Rightarrow> Notification \<Rightarrow> InboxState \<Rightarrow> outcome \<times> InboxState" where
  "emit topic n st =
     (let (r, log) = call_listeners (filter (\<lambda>l. l_topic l = topic) (listeners st)) n
                       (delivered st)
      in (r, st\<lparr>emitted := emitted st @ [(topic, n)], delivered := log\<rparr>))"

text \<open>
  Names for what a call of \<open>emit\<close> does: the listeners registered on a topic, whether
  one of them throws on a notification, the listeners that get invoked (those before
  the first that throws, and that one), and the entries their invocations leave in the
  log.
\<close>

definition subscribers :: "string \<Rightarrow> InboxState \<Rightarrow> Listener list" where
  "subscribers topic st = filter (\<lambda>l. l_topic l = topic) (listeners st)"

definition some_throws :: "Listener list \<Rightarrow> Notification \<Rightarrow> bool" where
  "some_throws ls n = list_ex (\<lambda>l. l_handler l n = Throws) ls"

definition invoked :: "Listener list \<Rightarrow> Notification \<Rightarrow> Listener list" where
  "invoked ls n =
     takeWhile (\<lambda>l. l_handler l n = Returns) ls @
     take 1 (dropWhile (\<lambda>l. l_handler l n = Returns) ls)"

definition calls_log :: "Listener list \<Rightarrow> Notification \<Rightarrow> (string \<times> string \<times> Notification) list" where
  "calls_log ls n = map (\<lambda>l. (l_topic l, l_name l, n)) ls"

subsection \<open>handleEvent\<close>

text \<open>
  \<^verbatim>\<open>try { onEvent(notification); } catch (e) { /* user error */ }\<close>
  Both outcomes of the callback end in a normal return.
\<close>

definition call_onEvent :: "InboxOptions \<Rightarrow> Notification \<Rightarrow> InboxState \<Rightarrow> outcome \<times> InboxState" where
  "call_onEvent opts n st =
     (case o_onEvent opts of
        None \<Rightarrow> (Returns, st)
      | Some cb \<Rightarrow>
          (case cb n of
             Returns \<Rightarrow> (Returns, st\<lparr>onEvent_calls := onEvent_calls st @ [n]\<rparr>)
           | Throws \<Rightarrow> (Returns, st\<lparr>onEvent_calls := onEvent_calls st @ [n]\<rparr>)))"

text \<open>
  The result pairs the way the call ends (\<open>Throws\<close>: an exception leaves
  \<open>handleEvent\<close>) with the state it leaves behind.
\<close>

definition handleEvent :: "InboxOptions \<Rightarrow> InboxState \<Rightarrow> NostrEvent \<Rightarrow> outcome \<times> InboxState" where
  "handleEvent opts st event =
     (if o_dedup opts \<and> set_has (seen st) (ev_id event) then (Returns, st)
      else
        let st1 = (if o_dedup opts
                   then st\<lparr>seen := trim_seen (set_add (seen st) (ev_id event))\<rparr>
                   else st);
            st2 = (if ev_created_at event > latestTimestamp st1
                   then st1\<lparr>latestTimestamp := ev_created_at event\<rparr>
                   else st1);
            classification = classifyEvent event (o_pubkey opts);
            notification = mkNotification event classification;
            (r1, st3) = emit ''notification'' notification st2
        in if r1 = Throws then (Throws, st3)
           else
             let (r2, st4) = emit (c_type classification) notification st3
             in if r2 = Throws then (Throws, st4)
                else
                  let (r3, st5) = (if c_priority classification = ''high''
                                   then emit ''urgent'' notification st4
                                   else (Returns, st4))
                  in if r3 = Throws then (Throws, st5)
                     else call_onEvent opts notification st5)"

text \<open>
  The relay layer calls \<open>handleEvent\<close> once per raw event; an exception of one call
  does not undo what that call did to the state, and the next call starts from it.
\<close>

definition handleAll :: "InboxOptions \<Rightarrow> InboxState \<Rightarrow> NostrEvent list \<Rightarrow> InboxState" where
  "handleAll opts st events = fold (\<lambda>event s. snd (handleEvent opts s event)) events st"

definition published_on :: "string \<Rightarrow> InboxState \<Rightarrow> (string \<times> Notification) list" where
  "published_on topic st = filter (\<lambda>(t, n). t = topic) (emitted st)"

text \<open>A fresh inbox: nothing seen, nothing logged.\<close>

definition initialInbox :: "int \<Rightarrow> Listener list \<Rightarrow> InboxState" where
  "initialInbox ts ls =
     \<lparr>seen = [], latestTimestamp = ts, listeners = ls, emitted = [], delivered = [],
      onEvent_calls = []\<rparr>"

text \<open>
  Sample data: the shape of the events of the test suite, and events whose ids are
  pairwise distinct.
\<close>

definition testEvent :: "int \<Rightarrow> string list list \<Rightarrow> NostrEvent" where
  "testEvent k ts =
     \<lparr>ev_id = ''e1'', ev_pubkey = ''abc'', ev_kind = k, ev_created_at = 1700000000,
      ev_tags = ts, ev_content = [], ev_sig = []\<rparr>"

definition sampleEvent :: "nat \<Rightarrow> NostrEvent" where
  "sampleEvent i =
     \<lparr>ev_id = replicate i (CHR ''a''), ev_pubkey = ''Q'', ev_kind = 1,
      ev_created_at = int i, ev_tags = [], ev_content = [], ev_sig = []\<rparr>"

text \<open>
  Sample data for the inbox: the 10,001 events \<open>sampleEvent 0\<close>, ..., \<open>sampleEvent 10000\<close>,
  an inbox with dedup on and no \<open>onEvent\<close> callback, a handler that throws and one that
  returns, and four listeners built from them.
\<close>

definition sampleEvents :: "NostrEvent list" where
  "sampleEvents = map sampleEvent [0..<10001]"

definition sampleOptions :: InboxOptions where
  "sampleOptions = \<lparr>o_pubkey = ''P'', o_dedup = True, o_onEvent = None\<rparr>"

definition throwing :: "Notification \<Rightarrow> outcome" where
  "throwing n = Throws"

definition returning :: "Notification \<Rightarrow> outcome" where
  "returning n = Returns"

definition badListener :: Listener where
  "badListener = \<lparr>l_topic = ''notification'', l_name = ''bad'', l_handler = throwing\<rparr>"

definition urgentListener :: Listener where
  "urgentListener = \<lparr>l_topic = ''urgent'', l_name = ''pager'', l_handler = returning\<rparr>"

definition lateListener :: Listener where
  "lateListener = \<lparr>l_topic = ''notification'', l_name = ''late'', l_handler = returning\<rparr>"

definition dmListener :: Listener where
  "dmListener = \<lparr>l_topic = ''dm'', l_name = ''dmbad'', l_handler = throwing\<rparr>"

section \<open>The webhook dispatcher (webhooks.cjs)\<close>

record WebhookOptions =
  w_secret :: "string option"
  w_events :: "string list option"
  w_urgentOnly :: bool
  w_batchMs :: int
  w_maxBatchSize :: int

text \<open>
  The JSON envelope: \<open>event\<close> and \<open>timestamp\<close> always, \<open>notification\<close> on a single
  envelope, \<open>count\<close> and \<open>notifications\<close> on a batch envelope.
\<close>

record Payload =
  p_event :: string
  p_timestamp :: int
  p_notification :: "Notification option"
  p_count :: "nat option"
  p_notifications :: "Notification list option"

text \<open>
  The state of one dispatcher: the queue \<open>batch\<close>, whether the variable
  \<open>batchTimer\<close> holds a timer handle, whether that timeout is still scheduled
  (neither fired nor cleared), and the log of the payloads handed to \<open>sendRequest\<close>,
  in call order. \<open>sendRequest\<close> issues its first HTTP request before it returns its
  promise; what the network answers, and the retries, are outside the model.
\<close>

record WebhookState =
  batch :: "Notification list"
  batchTimer :: bool
  timerPending :: bool
  requests :: "Payload list"

definition initialWebhook :: WebhookState where
  "initialWebhook = \<lparr>batch = [], batchTimer = False, timerPending = False, requests = []\<rparr>"

text \<open>
  \<^verbatim>\<open>batch.splice(0, maxBatchSize)\<close> removes and returns the first
  \<open>maxBatchSize\<close> elements; a count below zero is taken as zero and one beyond the
  length as the length.
\<close>

definition splice0 :: "'a list \<Rightarrow> int \<Rightarrow> 'a list \<times> 'a list" where
  "splice0 xs n = (take (nat n) xs, drop (nat n) xs)"

definition flushBatch :: "WebhookOptions \<Rightarrow> int \<Rightarrow> WebhookState \<Rightarrow> WebhookState" where
  "flushBatch opts now st =
     (if length (batch st) = 0 then st
      else
        let (toSend, rest) = splice0 (batch st) (w_maxBatchSize opts);
            payload = \<lparr>p_event = ''batch'', p_timestamp = now, p_notification = None,
                       p_count = Some (length toSend), p_notifications = Some toSend\<rparr>
        in st\<lparr>batch := rest, batchTimer := False, requests := requests st @ [payload]\<rparr>)"

definition send :: "WebhookOptions \<Rightarrow> int \<Rightarrow> Notification \<Rightarrow> WebhookState \<Rightarrow> WebhookState" where
  "send opts now notification st =
     (if (case w_events opts of None \<Rightarrow> False | Some es \<Rightarrow> n_type notification \<notin> set es)
      then st
      else if w_urgentOnly opts \<and> n_priority notification \<noteq> ''high'' then st
      else if w_batchMs opts > 0 then
        (let st1 = st\<lparr>batch := batch st @ [notification]\<rparr>
         in if int (length (batch st1)) \<ge> w_maxBatchSize opts then
              flushBatch opts now
                (if batchTimer st1 then st1\<lparr>timerPending := False\<rparr> else st1)
            else if \<not> batchTimer st1 then st1\<lparr>batchTimer := True, timerPending := True\<rparr>
            else st1)
      else
        st\<lparr>requests := requests st @
              [\<lparr>p_event = ''notification'', p_timestamp = now,
                p_notification = Some notification, p_count = None,
                p_notifications = None\<rparr>]\<rparr>)"

text \<open>The timeout armed by \<open>send\<close> fires: it runs \<open>flushBatch\<close>.\<close>

definition timer_fires :: "WebhookOptions \<Rightarrow> int \<Rightarrow> WebhookState \<Rightarrow> WebhookState" where
  "timer_fires opts now st =
     (if timerPending st then flushBatch opts now (st\<lparr>timerPending := False\<rparr>) else st)"

definition close :: "WebhookOptions \<Rightarrow> int \<Rightarrow> WebhookState \<Rightarrow> WebhookState" where
  "close opts now st =
     (let st1 = (if batchTimer st then st\<lparr>batchTimer := False, timerPending := False\<rparr> else st)
      in if length (batch st1) > 0 then flushBatch opts now st1 else st1)"

text \<open>
  What happens to a dispatcher, one step at a time, each with the clock reading of the
  step.
\<close>

datatype webhook_op = Send Notification | TimerFires | Close

fun step :: "WebhookOptions \<Rightarrow> WebhookState \<Rightarrow> int \<times> webhook_op \<Rightarrow> WebhookState" where
  "step opts st (now, Send n) = send opts now n st"
| "step opts st (now, TimerFires) = timer_fires opts now st"
| "step opts st (now, Close) = close opts now st"

definition run :: "WebhookOptions \<Rightarrow> (int \<times> webhook_op) list \<Rightarrow> WebhookState" where
  "run opts ops = foldl (step opts) initialWebhook ops"

text \<open>A batch envelope is well formed for a size bound.\<close>

definition batch_ok :: "int \<Rightarrow> Payload \<Rightarrow> bool" where
  "batch_ok m p =
     (p_event p = ''batch'' \<longrightarrow>
        (case (p_count p, p_notifications p) of
           (Some c, Some ns) \<Rightarrow> c = length ns \<and> int (length ns) \<le> m
         | _ \<Rightarrow> False))"

text \<open>The notifications a payload carries, and those \<open>send\<close> lets through its two filters.\<close>

definition carried :: "Payload \<Rightarrow> Notification list" where
  "carried p =
     (case p_notifications p of
        Some ns \<Rightarrow> ns
      | None \<Rightarrow> (case p_notification p of Some n \<Rightarrow> [n] | None \<Rightarrow> []))"

definition accepted :: "WebhookOptions \<Rightarrow> Notification \<Rightarrow> bool" where
  "accepted opts n =
     (\<not> (case w_events opts of None \<Rightarrow> False | Some es \<Rightarrow> n_type n \<notin> set es) \<and>
      \<not> (w_urgentOnly opts \<and> n_priority n \<noteq> ''high''))"

fun submitted :: "WebhookOptions \<Rightarrow> (int \<times> webhook_op) list \<Rightarrow> Notification list" where
  "submitted opts [] = []"
| "submitted opts ((now, Send n) # ops) =
     (if accepted opts n then n # submitted opts ops else submitted opts ops)"
| "submitted opts ((now, TimerFires) # ops) = submitted opts ops"
| "submitted opts ((now, Close) # ops) = submitted opts ops"

text \<open>Sample data for the dispatcher: a notification and a batching configuration.\<close>

definition sampleNote :: "string \<Rightarrow> string \<Rightarrow> Notification" where
  "sampleNote t c =
     \<lparr>n_id = c, n_type = t, n_priority = ''medium'', n_from = ''abc'', n_content = c,
      n_kind = 1, n_tags = [], n_createdAt = 0, n_raw = testEvent 1 [], n_dvmKind = None\<rparr>"

definition batchingOptions :: "int \<Rightarrow> WebhookOptions" where
  "batchingOptions m =
     \<lparr>w_secret = None, w_events = None, w_urgentOnly = False, w_batchMs = 50,
      w_maxBatchSize = m\<rparr>"

subsection \<open>Signatures\<close>

text \<open>
  HMAC-SHA256 with hex output and the UTF-8 encoding of \<open>Buffer.from\<close> belong to Node;
  they are parameters: \<open>hmac_hex secret payload\<close> stands for
  \<^verbatim>\<open>crypto.createHmac('sha256', secret).update(payload).digest('hex')\<close>
  and \<open>buffer_from s\<close> for the bytes of \<open>s\<close>. A string or \<open>null\<close> is a
  \<open>string option\<close>; \<open>!s\<close> holds of \<open>null\<close> and of the empty string.
\<close>

definition falsy :: "string option \<Rightarrow> bool" where
  "falsy s = (case s of None \<Rightarrow> True | Some x \<Rightarrow> x = [])"

definition sign :: "(string \<Rightarrow> string \<Rightarrow> string) \<Rightarrow> string option \<Rightarrow> string \<Rightarrow> string option" where
  "sign hmac_hex secret payload =
     (if falsy secret then None else Some (hmac_hex (the secret) payload))"

text \<open>
  \<^verbatim>\<open>if (signature) options.headers['X-Signature-256'] = `sha256=${signature}`;\<close>
\<close>

definition signature_header ::
  "(string \<Rightarrow> string \<Rightarrow> string) \<Rightarrow> string option \<Rightarrow> string \<Rightarrow> string option" where
  "signature_header hmac_hex secret payloadStr =
     (let signature = sign hmac_hex secret payloadStr
      in if falsy signature then None else Some (''sha256='' @ the signature))"

datatype js_error = RangeError

text \<open>\<open>crypto.timingSafeEqual\<close> throws on buffers of different byte lengths.\<close>

definition timingSafeEqual :: "'b list \<Rightarrow> 'b list \<Rightarrow> js_error + bool" where
  "timingSafeEqual a b = (if length a \<noteq> length b then Inl RangeError else Inr (a = b))"

definition expected_signature :: "(string \<Rightarrow> string \<Rightarrow> string) \<Rightarrow> string \<Rightarrow> string \<Rightarrow> string" where
  "expected_signature hmac_hex secret payload = ''sha256='' @ hmac_hex secret payload"

definition verifySignature ::
  "(string \<Rightarrow> string \<Rightarrow> string) \<Rightarrow> (string \<Rightarrow> 'b list) \<Rightarrow>
     string \<Rightarrow> string option \<Rightarrow> string option \<Rightarrow> js_error + bool" where
  "verifySignature hmac_hex buffer_from payload signature secret =
     (if falsy signature \<or> falsy secret then Inr False
      else
        let expected = expected_signature hmac_hex (the secret) payload
        in if length (the signature) \<noteq> length expected then Inr False
           else timingSafeEqual (buffer_from (the signature)) (buffer_from expected))"

text \<open>
  Sample data for the signatures: a stand-in for the digest and one for the encoding.
\<close>

definition sampleDigest :: "string \<Rightarrow> string \<Rightarrow> string" where
  "sampleDigest k p = rev k @ p"

definition sampleBytes :: "string \<Rightarrow> nat list" where
  "sampleBytes s = map of_char s"

section \<open>Properties of the rounding\<close>

text \<open>
  Integers of magnitude below \<open>2 ^ 53\<close> are doubles: rounding leaves them alone. The
  largest of them times 1000 is not one.
\<close>

lemma to_double_exact: "\<bar>x\<bar> < 2 ^ 53 \<Longrightarrow> to_double x = x"
proof -
  assume a: "\<bar>x\<bar> < 2 ^ 53"
  then have "drop_bits \<bar>x\<bar> = 0" by (simp add: drop_bits.simps)
  then have "to_double x = sgn x * \<bar>x\<bar>" by (simp add: to_double_def Let_def)
  then show ?thesis by (simp add: mult_sgn_abs)
qed

lemma to_double_max_safe: "to_double (9007199254740991 * 1000) = 9007199254740990976"
  by code_simp

section \<open>Properties of classifyEvent\<close>

text \<open>
  C1. For every kind in [5000, 6000) \<open>classifyEvent\<close> returns type \<open>dvm_request\<close>,
  priority \<open>high\<close> and \<open>dvmKind\<close> equal to the kind; for every kind in [6000, 7000) it
  returns type \<open>dvm_result\<close>, priority \<open>medium\<close> and \<open>dvmKind\<close> equal to the kind
  minus 1000.
\<close>
theorem classifyEvent_dvm_ranges:
  "(5000 \<le> ev_kind e \<and> ev_kind e < 6000 \<longrightarrow>
      classifyEvent e me =
        \<lparr>c_type = ''dvm_request'', c_priority = ''high'', c_dvmKind = Some (ev_kind e)\<rparr>) \<and>
   (6000 \<le> ev_kind e \<and> ev_kind e < 7000 \<longrightarrow>
      classifyEvent e me =
        \<lparr>c_type = ''dvm_result'', c_priority = ''medium'',
         c_dvmKind = Some (ev_kind e - 1000)\<rparr>)"
  by (simp add: classifyEvent_def Let_def KINDS_defs)

theorem classifyEvent_dvm_ranges_witness:
  "classifyEvent (testEvent 5050 [[''p'', ''me'']]) ''me'' =
     \<lparr>c_type = ''dvm_request'', c_priority = ''high'', c_dvmKind = Some 5050\<rparr> \<and>
   classifyEvent (testEvent 6050 [[''p'', ''me'']]) ''me'' =
     \<lparr>c_type = ''dvm_result'', c_priority = ''medium'', c_dvmKind = Some 5050\<rparr>"
  using classifyEvent_dvm_ranges [of "testEvent 5050 [[''p'', ''me'']]" "''me''"]
    classifyEvent_dvm_ranges [of "testEvent 6050 [[''p'', ''me'']]" "''me''"]
  by (simp add: testEvent_def)

lemma classifyEvent_type_known: "c_type (classifyEvent e me) \<in> set NotificationTypes"
  by (simp add: classifyEvent_def Let_def NotificationTypes_def)

lemma classifyEvent_priority_known: "c_priority (classifyEvent e me) \<in> set Priorities"
  by (simp add: classifyEvent_def Let_def Priorities_def)

lemma classifyEvent_depends:
  "ev_kind e = ev_kind e' \<Longrightarrow> ev_tags e = ev_tags e' \<Longrightarrow> classifyEvent e me = classifyEvent e' me"
  by (simp add: classifyEvent_def)

lemma classifyEvent_unknown:
  "ev_kind e \<notin> {DM_ENCRYPTED, GIFT_WRAP, DVM_FEEDBACK, ZAP_RECEIPT, LABEL, BID, DELIVERY,
       RESOLUTION, REACTION, TEXT_NOTE, COMMENT} \<Longrightarrow>
   \<not> (5000 \<le> ev_kind e \<and> ev_kind e < 7000) \<Longrightarrow>
   classifyEvent e me = \<lparr>c_type = ''unknown'', c_priority = ''low'', c_dvmKind = None\<rparr>"
  by (auto simp: classifyEvent_def Let_def)

text \<open>
  C2. \<open>classifyEvent\<close> is a total function of the kind, the tags and the watcher's
  pubkey: on every event it returns one of the thirteen notification types with one of
  the three priorities, two events that agree on kind and tags get the same
  classification, and a kind that none of the earlier rules matches gets type
  \<open>unknown\<close> with priority \<open>low\<close>.
\<close>
theorem classifyEvent_total_deterministic:
  "c_type (classifyEvent e me) \<in> set NotificationTypes \<and>
   c_priority (classifyEvent e me) \<in> set Priorities \<and>
   (ev_kind e = ev_kind e' \<and> ev_tags e = ev_tags e' \<longrightarrow>
      classifyEvent e me = classifyEvent e' me) \<and>
   (ev_kind e \<notin> {DM_ENCRYPTED, GIFT_WRAP, DVM_FEEDBACK, ZAP_RECEIPT, LABEL, BID, DELIVERY,
       RESOLUTION, REACTION, TEXT_NOTE, COMMENT} \<and>
    \<not> (5000 \<le> ev_kind e \<and> ev_kind e < 7000) \<longrightarrow>
      classifyEvent e me = \<lparr>c_type = ''unknown'', c_priority = ''low'', c_dvmKind = None\<rparr>)"
  using classifyEvent_type_known classifyEvent_priority_known classifyEvent_depends
    classifyEvent_unknown by blast

theorem classifyEvent_total_deterministic_witness:
  "c_type (classifyEvent (testEvent 99999 []) ''me'') \<in> set NotificationTypes \<and>
   c_priority (classifyEvent (testEvent 99999 []) ''me'') \<in> set Priorities \<and>
   classifyEvent (testEvent 99999 []) ''me'' =
     classifyEvent ((testEvent 99999 [])\<lparr>ev_id := ''e2'', ev_content := ''hi''\<rparr>) ''me'' \<and>
   classifyEvent (testEvent 99999 []) ''me'' =
     \<lparr>c_type = ''unknown'', c_priority = ''low'', c_dvmKind = None\<rparr>"
  using classifyEvent_total_deterministic [of "testEvent 99999 []" "''me''"
      "(testEvent 99999 [])\<lparr>ev_id := ''e2'', ev_content := ''hi''\<rparr>"]
  by (simp add: testEvent_def KINDS_defs classifyEvent_def NotificationTypes_def Priorities_def)

section \<open>Properties of buildFilters\<close>

text \<open>
  C5. With every channel disabled \<open>buildFilters\<close> returns the empty list; with only
  the mentions channel enabled it returns exactly one filter, whose kinds are text note
  (1) and comment (1111) and whose \<open>#p\<close> constraint is the watcher's pubkey. Both
  copies of the function agree here.
\<close>
theorem buildFilters_disabled_and_mentions:
  "buildFilters pk (allDisabled ks) s = [] \<and>
   buildFilters_v1 pk (allDisabled ks) s = [] \<and>
   buildFilters pk ((allDisabled ks)\<lparr>mentions := Some True\<rparr>) s =
     [\<lparr>f_kinds = [1, 1111], f_p = [pk], f_L = None, f_since = sinceObj s\<rparr>] \<and>
   buildFilters_v1 pk ((allDisabled ks)\<lparr>mentions := Some True\<rparr>) s =
     [\<lparr>f_kinds = [1, 1111], f_p = [pk], f_L = None, f_since = sinceObj s\<rparr>] \<and>
   set [1, 1111] = {TEXT_NOTE, COMMENT}"
  by (simp add: buildFilters_def buildFilters_v1_def allDisabled_def enabled_def mkFilter_def
      KINDS_defs)

lemma push_range_upto: "push_range k hi acc = acc @ [k..hi - 1]"
proof (induction k hi acc rule: push_range.induct)
  case (1 k hi acc)
  show ?case
  proof (cases "k < hi")
    case True
    then have "[k..hi - 1] = k # [k + 1..hi - 1]"
      by (simp add: upto_rec1)
    with True "1" show ?thesis by (simp del: push_range.simps add: push_range.simps [of k])
  next
    case False
    then show ?thesis by simp
  qed
qed

lemma commonDvmKinds_facts:
  "length commonDvmKinds = 23" "distinct commonDvmKinds"
  by (simp_all add: commonDvmKinds_def)

lemma buildFilters_request_filter:
  assumes "dvmKinds ch = None" and "f \<in> set (buildFilters pk ch s)"
    and "\<exists>k \<in> set (f_kinds f). 5000 \<le> k \<and> k < 6000"
  shows "f_kinds f = commonDvmKinds"
  using assms
  by (auto simp: buildFilters_def mkFilter_def KINDS_defs commonResultKinds_def
      split: if_splits)

lemma buildFilters_request_filter_present:
  "dvmKinds ch = None \<Longrightarrow> enabled (dvmRequests ch) \<Longrightarrow>
   mkFilter commonDvmKinds pk s \<in> set (buildFilters pk ch s)"
  by (simp add: buildFilters_def)

lemma buildFilters_v1_request_filter:
  assumes "f \<in> set (buildFilters_v1 pk ch s)"
    and "\<exists>k \<in> set (f_kinds f). 5000 \<le> k \<and> k < 6000"
  shows "f_kinds f = [5000..5099]"
  using assms
  by (auto simp: buildFilters_v1_def mkFilter_def KINDS_defs push_range_upto
      split: if_splits)

lemma buildFilters_v1_request_filter_present:
  "enabled (dvmRequests ch) \<Longrightarrow> mkFilter [5000..5099] pk s \<in> set (buildFilters_v1 pk ch s)"
  by (simp add: buildFilters_v1_def push_range_upto)

text \<open>
  C6. When no explicit list of DVM kinds is supplied, the filter for the work-request
  channel is to carry fewer than 30 kinds. The later copy of \<open>buildFilters\<close> does so
  for every channel configuration without \<open>dvmKinds\<close>: the only filter with a kind in
  [5000, 6000) carries the curated list \<open>commonDvmKinds\<close>, 23 pairwise different kinds,
  and it is present whenever the channel is enabled. The earlier copy does not: for
  every channel configuration its work-request filter carries the kinds 5000 to 5099,
  one hundred of them; this is what it returns on the input of the test
  \<^verbatim>\<open>includes common DVM request kinds (not 100 kinds)\<close>, which asserts fewer than 30.
\<close>
theorem buildFilters_dvm_request_kinds:
  "(enabled (dvmRequests ch) \<longrightarrow> mkFilter [5000..5099] pk s \<in> set (buildFilters_v1 pk ch s)) \<and>
   (\<forall>f \<in> set (buildFilters_v1 pk ch s).
      (\<exists>k \<in> set (f_kinds f). 5000 \<le> k \<and> k < 6000) \<longrightarrow> f_kinds f = [5000..5099]) \<and>
   buildFilters_v1 pk ((allDisabled ks)\<lparr>dvmRequests := Some True\<rparr>) s =
     [mkFilter [5000..5099] pk s] \<and>
   f_kinds (mkFilter [5000..5099] pk s) = [5000..5099] \<and>
   length [5000..(5099::int)] = 100 \<and> \<not> length [5000..(5099::int)] < 30 \<and>
   (dvmKinds ch = None \<and> enabled (dvmRequests ch) \<longrightarrow>
      mkFilter commonDvmKinds pk s \<in> set (buildFilters pk ch s)) \<and>
   (dvmKinds ch = None \<longrightarrow>
      (\<forall>f \<in> set (buildFilters pk ch s).
         (\<exists>k \<in> set (f_kinds f). 5000 \<le> k \<and> k < 6000) \<longrightarrow> f_kinds f = commonDvmKinds)) \<and>
   buildFilters pk ((allDisabled None)\<lparr>dvmRequests := Some True\<rparr>) s =
     [mkFilter commonDvmKinds pk s] \<and>
   f_kinds (mkFilter commonDvmKinds pk s) = commonDvmKinds \<and>
   length commonDvmKinds = 23 \<and> distinct commonDvmKinds \<and> length commonDvmKinds < 30"
proof -
  have closed_v1: "buildFilters_v1 pk ((allDisabled ks)\<lparr>dvmRequests := Some True\<rparr>) s =
      [mkFilter [5000..5099] pk s]"
    by (simp add: buildFilters_v1_def allDisabled_def enabled_def push_range_upto)
  have closed: "buildFilters pk ((allDisabled None)\<lparr>dvmRequests := Some True\<rparr>) s =
      [mkFilter commonDvmKinds pk s]"
    by (simp add: buildFilters_def allDisabled_def enabled_def)
  have kinds: "f_kinds (mkFilter xs pk s) = xs" for xs
    by (simp add: mkFilter_def)
  have len: "length [5000..(5099::int)] = 100" by simp
  from closed_v1 closed kinds len commonDvmKinds_facts
    buildFilters_request_filter [of ch _ pk s] buildFilters_request_filter_present [of ch pk s]
    buildFilters_v1_request_filter [of _ pk ch s] buildFilters_v1_request_filter_present [of ch pk s]
  show ?thesis by auto
qed

theorem buildFilters_dvm_request_kinds_witness:
  "map (\<lambda>f. length (f_kinds f)) (buildFilters_v1 ''P'' defaultChannels None) =
     [2, 1, 1, 100, 100, 1, 1, 1, 3] \<and>
   map (\<lambda>f. length (f_kinds f)) (buildFilters ''P'' defaultChannels None) =
     [2, 1, 1, 23, 23, 1, 1, 1, 3]"
  using buildFilters_dvm_request_kinds [of defaultChannels "''P''" None None]
  by (simp add: buildFilters_def buildFilters_v1_def defaultChannels_def enabled_def
      mkFilter_def push_range_upto commonDvmKinds_def commonResultKinds_def)

text \<open>
  C7, as stated, fails at the watermark 0: it is not null, yet no filter carries a
  \<open>since\<close> field, because the source tests the truthiness of \<open>since\<close>.
\<close>
theorem buildFilters_since_zero_counterexample:
  "buildFilters ''P'' ((allDisabled None)\<lparr>mentions := Some True\<rparr>) (Some 0) =
     [\<lparr>f_kinds = [1, 1111], f_p = [''P''], f_L = None, f_since = None\<rparr>] \<and>
   buildFilters_v1 ''P'' ((allDisabled None)\<lparr>mentions := Some True\<rparr>) (Some 0) =
     [\<lparr>f_kinds = [1, 1111], f_p = [''P''], f_L = None, f_since = None\<rparr>]"
  by (simp add: buildFilters_def buildFilters_v1_def allDisabled_def enabled_def mkFilter_def
      sinceObj_def KINDS_defs)

lemma buildFilters_f_since:
  "f \<in> set (buildFilters pk ch s) \<Longrightarrow> f_since f = sinceObj s"
  by (auto simp: buildFilters_def mkFilter_def split: if_splits option.splits)

lemma buildFilters_v1_f_since:
  "f \<in> set (buildFilters_v1 pk ch s) \<Longrightarrow> f_since f = sinceObj s"
  by (auto simp: buildFilters_v1_def mkFilter_def split: if_splits)

text \<open>
  C7, amended. For every pubkey, channel configuration and watermark other than null
  and 0, every filter that \<open>buildFilters\<close> returns carries that watermark as its
  \<open>since\<close> field; when the watermark is null or 0, no filter carries a \<open>since\<close>
  field. Both copies of the function agree here.
\<close>
theorem buildFilters_since:
  "(t \<noteq> 0 \<longrightarrow>
      (\<forall>f \<in> set (buildFilters pk ch (Some t)) \<union> set (buildFilters_v1 pk ch (Some t)).
         f_since f = Some t)) \<and>
   (\<forall>f \<in> set (buildFilters pk ch None) \<union> set (buildFilters_v1 pk ch None).
      f_since f = None) \<and>
   (\<forall>f \<in> set (buildFilters pk ch (Some 0)) \<union> set (buildFilters_v1 pk ch (Some 0)).
      f_since f = None)"
  by (auto simp: sinceObj_def dest!: buildFilters_f_since buildFilters_v1_f_since)

theorem buildFilters_since_witness:
  "map f_since (buildFilters ''P'' defaultChannels (Some 1700000000)) =
     replicate 9 (Some 1700000000) \<and>
   map f_since (buildFilters_v1 ''P'' defaultChannels (Some 1700000000)) =
     replicate 9 (Some 1700000000) \<and>
   map f_since (buildFilters ''P'' defaultChannels None) = replicate 9 None"
  using buildFilters_since [of 1700000000 "''P''" defaultChannels]
  by (simp add: buildFilters_def buildFilters_v1_def defaultChannels_def enabled_def
      mkFilter_def sinceObj_def numeral_eq_Suc)

section \<open>Properties of the ingestion pipeline\<close>

subsection \<open>The dedup window\<close>

lemma at_index_nth: "i < length xs \<Longrightarrow> at_index xs i = Some (xs ! i)"
  by (induction xs i rule: at_index.induct) auto

lemma at_index_None: "length xs \<le> i \<Longrightarrow> at_index xs i = None"
  by (induction xs i rule: at_index.induct) auto

lemma fold_delete_at_drop:
  "distinct arr \<Longrightarrow> k \<le> length arr \<Longrightarrow> fold (delete_at arr) [0..<k] arr = drop k arr"
proof (induction k)
  case 0
  then show ?case by simp
next
  case (Suc k)
  then have k: "k < length arr" by simp
  have split: "drop k arr = arr ! k # drop (Suc k) arr"
    using k by (simp add: Cons_nth_drop_Suc)
  have "distinct (drop k arr)" using Suc.prems(1) by simp
  with split have notin: "arr ! k \<notin> set (drop (Suc k) arr)" by simp
  have "fold (delete_at arr) [0..<Suc k] arr = delete_at arr k (drop k arr)"
    using Suc by simp
  also have "\<dots> = removeAll (arr ! k) (drop k arr)"
    using k by (simp add: delete_at_def at_index_nth set_delete_def)
  also have "\<dots> = drop (Suc k) arr"
    using notin by (simp add: split)
  finally show ?case .
qed

lemma trim_seen_small: "length s \<le> 10000 \<Longrightarrow> trim_seen s = s"
  by (simp add: trim_seen_def)

lemma trim_seen_large:
  "distinct s \<Longrightarrow> length s > 10000 \<Longrightarrow> trim_seen s = drop 5000 s"
  by (simp add: trim_seen_def fold_delete_at_drop)

lemma fold_delete_at_keeps:
  "x \<in> set s \<Longrightarrow> \<forall>i<k. at_index arr i \<noteq> Some x \<Longrightarrow> x \<in> set (fold (delete_at arr) [0..<k] s)"
proof (induction k)
  case 0
  then show ?case by simp
next
  case (Suc k)
  then have IH: "x \<in> set (fold (delete_at arr) [0..<k] s)" by simp
  have ne: "at_index arr k \<noteq> Some x" using Suc.prems(2) by simp
  have "fold (delete_at arr) [0..<Suc k] s = delete_at arr k (fold (delete_at arr) [0..<k] s)"
    by simp
  moreover have "x \<in> set (delete_at arr k ys)" if "x \<in> set ys" for ys
    using that ne by (cases "at_index arr k") (auto simp: delete_at_def set_delete_def)
  ultimately show ?case using IH by simp
qed

lemma trim_seen_keeps_new:
  assumes "x \<notin> set xs"
  shows "x \<in> set (trim_seen (xs @ [x]))"
proof (cases "length (xs @ [x]) > 10000")
  case False
  then show ?thesis by (simp add: trim_seen_def)
next
  case True
  have "\<forall>i<5000. at_index (xs @ [x]) i \<noteq> Some x"
  proof (intro allI impI)
    fix i :: nat
    assume "i < 5000"
    with True have i: "i < length xs" by simp
    then have "at_index (xs @ [x]) i = Some (xs ! i)"
      by (simp add: at_index_nth nth_append)
    moreover have "xs ! i \<in> set xs" using i by simp
    ultimately show "at_index (xs @ [x]) i \<noteq> Some x" using assms by auto
  qed
  then have "x \<in> set (fold (delete_at (xs @ [x])) [0..<5000] (xs @ [x]))"
    by (intro fold_delete_at_keeps) simp_all
  with True show ?thesis by (simp add: trim_seen_def)
qed

lemma emit_frame [simp]:
  "seen (snd (emit t n st)) = seen st"
  "latestTimestamp (snd (emit t n st)) = latestTimestamp st"
  "listeners (snd (emit t n st)) = listeners st"
  "onEvent_calls (snd (emit t n st)) = onEvent_calls st"
  "emitted (snd (emit t n st)) = emitted st @ [(t, n)]"
  by (simp_all add: emit_def split: prod.splits)

lemma call_onEvent_frame [simp]:
  "seen (snd (call_onEvent opts n st)) = seen st"
  "latestTimestamp (snd (call_onEvent opts n st)) = latestTimestamp st"
  "listeners (snd (call_onEvent opts n st)) = listeners st"
  "emitted (snd (call_onEvent opts n st)) = emitted st"
  "delivered (snd (call_onEvent opts n st)) = delivered st"
  "fst (call_onEvent opts n st) = Returns"
  by (simp_all add: call_onEvent_def split: option.splits outcome.splits)

text \<open>The state before publishing: dedup window and watermark updated.\<close>

lemma handleEvent_seen:
  "seen (snd (handleEvent opts st e)) =
     (if o_dedup opts \<and> ev_id e \<notin> set (seen st)
      then trim_seen (set_add (seen st) (ev_id e)) else seen st)"
  by (simp add: handleEvent_def set_has_def Let_def case_prod_beta)

lemma handleEvent_latestTimestamp:
  "latestTimestamp (snd (handleEvent opts st e)) =
     (if o_dedup opts \<and> ev_id e \<in> set (seen st) then latestTimestamp st
      else max (latestTimestamp st) (ev_created_at e))"
  by (simp add: handleEvent_def set_has_def Let_def case_prod_beta max_def)


lemma handleAll_snoc:
  "handleAll opts st (evs @ [e]) = snd (handleEvent opts (handleAll opts st evs) e)"
  by (simp add: handleAll_def)

lemma seen_handleAll_below_cap:
  "o_dedup opts \<Longrightarrow> seen st = [] \<Longrightarrow> distinct (map ev_id evs) \<Longrightarrow> length evs \<le> 10000 \<Longrightarrow>
   seen (handleAll opts st evs) = map ev_id evs"
proof (induction evs rule: rev_induct)
  case Nil
  then show ?case by (simp add: handleAll_def)
next
  case (snoc e evs)
  then have IH: "seen (handleAll opts st evs) = map ev_id evs" by simp
  have fresh: "ev_id e \<notin> set (map ev_id evs)" using snoc.prems(3) by simp
  have "seen (handleAll opts st (evs @ [e])) = trim_seen (map ev_id evs @ [ev_id e])"
    using snoc.prems(1) fresh by (simp add: handleAll_snoc handleEvent_seen IH set_add_def)
  also have "\<dots> = map ev_id evs @ [ev_id e]"
    using snoc.prems(4) by (simp add: trim_seen_small)
  finally show ?case by simp
qed

lemma seen_handleAll_over_cap:
  assumes "o_dedup opts" "seen st = []" "distinct (map ev_id evs)" "length evs = 10001"
  shows "seen (handleAll opts st evs) = drop 5000 (map ev_id evs)"
proof -
  from assms(4) have ne: "evs \<noteq> []" by auto
  define bs where "bs = butlast evs"
  define e where "e = last evs"
  have evs: "evs = bs @ [e]" using ne by (simp add: bs_def e_def)
  have len: "length bs = 10000" using assms(4) by (simp add: bs_def)
  have dist: "distinct (map ev_id bs)" using assms(3) by (simp add: evs)
  have fresh: "ev_id e \<notin> set (map ev_id bs)" using assms(3) by (simp add: evs)
  have before: "seen (handleAll opts st bs) = map ev_id bs"
    using assms(1,2) dist len by (simp add: seen_handleAll_below_cap)
  have "seen (handleAll opts st evs) = trim_seen (map ev_id bs @ [ev_id e])"
    using assms(1) fresh by (simp add: evs handleAll_snoc handleEvent_seen before set_add_def)
  also have "\<dots> = drop 5000 (map ev_id bs @ [ev_id e])"
    using assms(3) len by (intro trim_seen_large) (simp_all add: evs)
  finally show ?thesis by (simp add: evs)
qed

text \<open>
  C4. Starting from an empty dedup window and handling raw events with pairwise
  distinct ids: up to 10,000 events nothing is evicted; the 10,001st exceeds the cap and
  the oldest 5,000 ids are removed, in insertion order, which leaves 5,001 ids (more than
  5,000, fewer than 10,001), the most recently inserted id among them.
\<close>
theorem dedup_window_eviction:
  assumes "o_dedup opts" and "seen st = []" and "distinct (map ev_id evs)"
  shows "(length evs \<le> 10000 \<longrightarrow> seen (handleAll opts st evs) = map ev_id evs) \<and>
         (length evs = 10001 \<longrightarrow>
            seen (handleAll opts st evs) = drop 5000 (map ev_id evs) \<and>
            length (seen (handleAll opts st evs)) = 5001 \<and>
            length (seen (handleAll opts st evs)) < 10001 \<and>
            length (seen (handleAll opts st evs)) > 5000 \<and>
            ev_id (last evs) \<in> set (seen (handleAll opts st evs)))"
proof (intro conjI impI)
  assume "length evs \<le> 10000"
  with assms show "seen (handleAll opts st evs) = map ev_id evs"
    by (rule seen_handleAll_below_cap)
next
  assume len: "length evs = 10001"
  with assms have eq: "seen (handleAll opts st evs) = drop 5000 (map ev_id evs)"
    by (rule seen_handleAll_over_cap)
  then show "seen (handleAll opts st evs) = drop 5000 (map ev_id evs)" .
  from eq len show n: "length (seen (handleAll opts st evs)) = 5001" by simp
  from n show "length (seen (handleAll opts st evs)) < 10001" by simp
  from n show "length (seen (handleAll opts st evs)) > 5000" by simp
  from len have ne: "evs \<noteq> []" by auto
  then have "ev_id (last evs) = last (drop 5000 (map ev_id evs))"
    using len by (simp add: last_map)
  moreover have "drop 5000 (map ev_id evs) \<noteq> []" using len by simp
  ultimately show "ev_id (last evs) \<in> set (seen (handleAll opts st evs))"
    unfolding eq by (metis last_in_set)
qed

lemma sampleEvents_length: "length sampleEvents = 10001"
  by (simp add: sampleEvents_def del: upt_rec_numeral)

lemma sampleEvents_distinct: "distinct (map ev_id sampleEvents)"
proof -
  have "inj (\<lambda>i. replicate i (CHR ''a''))"
    by (rule injI) (metis length_replicate)
  then have "distinct (map (\<lambda>i. replicate i (CHR ''a'')) [0..<10001])"
    by (simp add: distinct_map inj_on_def del: upt_rec_numeral)
  moreover have "map ev_id sampleEvents = map (\<lambda>i. replicate i (CHR ''a'')) [0..<10001]"
    by (simp add: sampleEvents_def sampleEvent_def del: upt_rec_numeral)
  ultimately show ?thesis by simp
qed

lemma sampleEvents_last: "last sampleEvents = sampleEvent 10000"
proof -
  have "[0..<10001] = [0..<10000] @ [10000]"
    using upt_Suc_append [of 0 10000] by (simp del: upt_rec_numeral upt_Suc)
  then show ?thesis by (simp add: sampleEvents_def del: upt_rec_numeral)
qed

theorem dedup_window_eviction_witness:
  "length (seen (handleAll sampleOptions (initialInbox 0 []) sampleEvents)) = 5001 \<and>
   ev_id (sampleEvent 10000) \<in> set (seen (handleAll sampleOptions (initialInbox 0 []) sampleEvents))"
proof -
  have a: "o_dedup sampleOptions" by (simp add: sampleOptions_def)
  have b: "seen (initialInbox 0 []) = []" by (simp add: initialInbox_def)
  from dedup_window_eviction [OF a b sampleEvents_distinct] sampleEvents_length
  have "length (seen (handleAll sampleOptions (initialInbox 0 []) sampleEvents)) = 5001 \<and>
        ev_id (last sampleEvents) \<in>
          set (seen (handleAll sampleOptions (initialInbox 0 []) sampleEvents))"
    by blast
  then show ?thesis by (simp only: sampleEvents_last)
qed

subsection \<open>Duplicates\<close>

lemma classifyEvent_type_not_reserved:
  "c_type (classifyEvent e me) \<noteq> ''notification''"
  by (simp add: classifyEvent_def Let_def)

lemma handleEvent_duplicate: 
  "o_dedup opts \<Longrightarrow> ev_id e \<in> set (seen st) \<Longrightarrow> handleEvent opts st e = (Returns, st)"
  by (simp add: handleEvent_def set_has_def)

lemma handleEvent_records_id:
  "o_dedup opts \<Longrightarrow> ev_id e \<in> set (seen (snd (handleEvent opts st e)))"
  by (simp add: handleEvent_seen set_add_def trim_seen_keeps_new)

lemma handleEvent_published:
  "\<not> (o_dedup opts \<and> ev_id e \<in> set (seen st)) \<Longrightarrow>
   published_on ''notification'' (snd (handleEvent opts st e)) =
     published_on ''notification'' st @
       [(''notification'', mkNotification e (classifyEvent e (o_pubkey opts)))]"
  by (simp add: handleEvent_def published_on_def Let_def case_prod_beta set_has_def
      classifyEvent_type_not_reserved)

text \<open>
  C3. With dedup enabled, \<open>handleEvent\<close> on a raw event whose id is already in the
  dedup window returns at once and leaves the whole state as it was: nothing is
  emitted on any topic, no listener and no callback is invoked, watermark and dedup
  window are unchanged. Hence handling the same raw event twice publishes exactly one
  notification on the topic \<open>notification\<close>.
\<close>
theorem handleEvent_duplicate_no_effect:
  "(o_dedup opts \<and> ev_id e \<in> set (seen st) \<longrightarrow> handleEvent opts st e = (Returns, st)) \<and>
   (o_dedup opts \<and> ev_id e \<notin> set (seen st) \<longrightarrow>
      handleEvent opts (snd (handleEvent opts st e)) e = (Returns, snd (handleEvent opts st e)) \<and>
      published_on ''notification'' (handleAll opts st [e, e]) =
        published_on ''notification'' st @
          [(''notification'', mkNotification e (classifyEvent e (o_pubkey opts)))]) \<and>
   (o_dedup opts \<longrightarrow>
      length (published_on ''notification'' (handleAll opts (initialInbox ts ls) [e, e])) = 1)"
proof (intro conjI impI)
  assume "o_dedup opts \<and> ev_id e \<in> set (seen st)"
  then show "handleEvent opts st e = (Returns, st)" by (simp add: handleEvent_duplicate)
next
  assume a: "o_dedup opts \<and> ev_id e \<notin> set (seen st)"
  then show second: "handleEvent opts (snd (handleEvent opts st e)) e = (Returns, snd (handleEvent opts st e))"
    by (simp add: handleEvent_duplicate handleEvent_records_id)
  from a have "published_on ''notification'' (snd (handleEvent opts st e)) =
        published_on ''notification'' st @
          [(''notification'', mkNotification e (classifyEvent e (o_pubkey opts)))]"
    by (simp add: handleEvent_published)
  then show "published_on ''notification'' (handleAll opts st [e, e]) =
        published_on ''notification'' st @
          [(''notification'', mkNotification e (classifyEvent e (o_pubkey opts)))]"
    by (simp add: handleAll_def second)
next
  assume d: "o_dedup opts"
  let ?st = "initialInbox ts ls"
  have fresh: "ev_id e \<notin> set (seen ?st)" by (simp add: initialInbox_def)
  have "handleEvent opts (snd (handleEvent opts ?st e)) e = (Returns, snd (handleEvent opts ?st e))"
    using d by (simp add: handleEvent_duplicate handleEvent_records_id)
  then have "handleAll opts ?st [e, e] = snd (handleEvent opts ?st e)"
    by (simp add: handleAll_def)
  moreover have "published_on ''notification'' ?st = []"
    by (simp add: published_on_def initialInbox_def)
  ultimately show "length (published_on ''notification'' (handleAll opts ?st [e, e])) = 1"
    using fresh by (simp add: handleEvent_published)
qed

theorem handleEvent_duplicate_no_effect_witness:
  "handleEvent sampleOptions (snd (handleEvent sampleOptions (initialInbox 0 []) (testEvent 4 [[''p'', ''P'']])))
      (testEvent 4 [[''p'', ''P'']]) =
     (Returns, snd (handleEvent sampleOptions (initialInbox 0 []) (testEvent 4 [[''p'', ''P'']]))) \<and>
   map fst (published_on ''notification''
      (handleAll sampleOptions (initialInbox 0 []) [testEvent 4 [[''p'', ''P'']], testEvent 4 [[''p'', ''P'']]])) =
     [''notification'']"
  using handleEvent_duplicate_no_effect [of sampleOptions "testEvent 4 [[''p'', ''P'']]" "initialInbox 0 []"]
  by (simp add: sampleOptions_def initialInbox_def published_on_def)

subsection \<open>Exceptions of user code\<close>

text \<open>
  C9, as stated, fails for a subscriber: a listener on the topic \<open>notification\<close> that
  throws ends \<open>handleEvent\<close> with that exception. For a direct message (kind 4, priority
  high) nothing is emitted on the topics \<open>dm\<close> and \<open>urgent\<close>, the listener on
  \<open>urgent\<close> is never invoked and neither is the \<open>onEvent\<close> callback.
\<close>
theorem handleEvent_listener_throws_counterexample:
  "handleEvent (sampleOptions\<lparr>o_onEvent := Some returning\<rparr>)
      (initialInbox 0 [badListener, urgentListener]) (testEvent 4 [[''p'', ''P'']]) =
     (Throws,
      \<lparr>seen = [''e1''], latestTimestamp = 1700000000,
       listeners = [badListener, urgentListener],
       emitted = [(''notification'',
          mkNotification (testEvent 4 [[''p'', ''P'']])
            \<lparr>c_type = ''dm'', c_priority = ''high'', c_dvmKind = None\<rparr>)],
       delivered = [(''notification'', ''bad'',
          mkNotification (testEvent 4 [[''p'', ''P'']])
            \<lparr>c_type = ''dm'', c_priority = ''high'', c_dvmKind = None\<rparr>)],
       onEvent_calls = []\<rparr>)"
  by (simp add: handleEvent_def sampleOptions_def initialInbox_def testEvent_def set_has_def
      set_add_def trim_seen_def classifyEvent_def KINDS_defs emit_def badListener_def
      urgentListener_def throwing_def returning_def Let_def)

lemma call_listeners_all_return:
  "\<forall>l \<in> set ls. l_handler l n = Returns \<Longrightarrow> fst (call_listeners ls n log) = Returns"
  by (induction ls arbitrary: log) auto

lemma emit_all_return:
  "\<forall>l \<in> set (listeners st). l_handler l n = Returns \<Longrightarrow> fst (emit t n st) = Returns"
  by (simp add: emit_def case_prod_beta call_listeners_all_return)

lemma handleEvent_returns:
  assumes "\<forall>l \<in> set (listeners st). l_handler l (mkNotification e (classifyEvent e (o_pubkey opts))) = Returns"
  shows "fst (handleEvent opts st e) = Returns"
  using assms
  by (simp add: handleEvent_def Let_def case_prod_beta emit_all_return)

lemma handleEvent_callback_irrelevant:
  "handleEvent (opts\<lparr>o_onEvent := Some cb\<rparr>) st e = handleEvent (opts\<lparr>o_onEvent := Some cb'\<rparr>) st e"
  by (simp add: handleEvent_def Let_def case_prod_beta call_onEvent_def split: outcome.splits)

lemma handleEvent_state_independent:
  "seen (snd (handleEvent opts st e)) =
     seen (snd (handleEvent (opts\<lparr>o_onEvent := None\<rparr>) (st\<lparr>listeners := []\<rparr>) e))"
  "latestTimestamp (snd (handleEvent opts st e)) =
     latestTimestamp (snd (handleEvent (opts\<lparr>o_onEvent := None\<rparr>) (st\<lparr>listeners := []\<rparr>) e))"
  by (simp_all add: handleEvent_seen handleEvent_latestTimestamp)

lemma outcome_not_Returns: "(x \<noteq> Returns) = (x = Throws)"
  by (cases x) simp_all

lemma invoked_Cons:
  "invoked (l # ls) n = (if l_handler l n = Returns then l # invoked ls n else [l])"
  by (simp add: invoked_def)

lemma call_listeners_eq:
  "call_listeners ls n log =
     (if some_throws ls n then Throws else Returns, log @ calls_log (invoked ls n) n)"
proof (induction ls arbitrary: log)
  case Nil
  then show ?case by (simp add: some_throws_def invoked_def calls_log_def)
next
  case (Cons l ls)
  show ?case
  proof (cases "l_handler l n")
    case Returns
    then show ?thesis
      using Cons [of "log @ [(l_topic l, l_name l, n)]"]
      by (simp add: some_throws_def invoked_Cons calls_log_def)
  next
    case Throws
    then show ?thesis
      by (simp add: some_throws_def invoked_Cons calls_log_def)
  qed
qed

lemma invoked_all: "\<not> some_throws ls n \<Longrightarrow> invoked ls n = ls"
proof (induction ls)
  case Nil
  then show ?case by (simp add: invoked_def)
next
  case (Cons l ls)
  then show ?case by (auto simp: some_throws_def invoked_Cons outcome_not_Returns)
qed

lemma emit_eq:
  "emit t n st =
     (if some_throws (subscribers t st) n then Throws else Returns,
      st\<lparr>emitted := emitted st @ [(t, n)],
         delivered := delivered st @ calls_log (invoked (subscribers t st) n) n\<rparr>)"
  by (simp add: emit_def call_listeners_eq subscribers_def)

lemma subscribers_frame [simp]:
  "subscribers t (st\<lparr>seen := a\<rparr>) = subscribers t st"
  "subscribers t (st\<lparr>latestTimestamp := b\<rparr>) = subscribers t st"
  "subscribers t (st\<lparr>emitted := c\<rparr>) = subscribers t st"
  "subscribers t (st\<lparr>delivered := d\<rparr>) = subscribers t st"
  by (simp_all add: subscribers_def)

text \<open>The three ways a subscriber can end handleEvent, and the way without.\<close>

lemma handleEvent_throw_notification:
  assumes "\<not> (o_dedup opts \<and> ev_id e \<in> set (seen st))"
    and "some_throws (subscribers ''notification'' st) (mkNotification e (classifyEvent e (o_pubkey opts)))"
  shows "fst (handleEvent opts st e) = Throws"
    and "emitted (snd (handleEvent opts st e)) =
           emitted st @ [(''notification'', mkNotification e (classifyEvent e (o_pubkey opts)))]"
    and "delivered (snd (handleEvent opts st e)) =
           delivered st @
             calls_log (invoked (subscribers ''notification'' st)
               (mkNotification e (classifyEvent e (o_pubkey opts))))
               (mkNotification e (classifyEvent e (o_pubkey opts)))"
    and "onEvent_calls (snd (handleEvent opts st e)) = onEvent_calls st"
  using assms
  by (simp_all add: handleEvent_def Let_def emit_eq set_has_def)

lemma handleEvent_throw_type:
  assumes "\<not> (o_dedup opts \<and> ev_id e \<in> set (seen st))"
    and "\<not> some_throws (subscribers ''notification'' st) (mkNotification e (classifyEvent e (o_pubkey opts)))"
    and "some_throws (subscribers (c_type (classifyEvent e (o_pubkey opts))) st)
           (mkNotification e (classifyEvent e (o_pubkey opts)))"
  shows "fst (handleEvent opts st e) = Throws"
    and "emitted (snd (handleEvent opts st e)) =
           emitted st @
             [(''notification'', mkNotification e (classifyEvent e (o_pubkey opts))),
              (c_type (classifyEvent e (o_pubkey opts)),
               mkNotification e (classifyEvent e (o_pubkey opts)))]"
    and "delivered (snd (handleEvent opts st e)) =
           delivered st @
             calls_log (subscribers ''notification'' st)
               (mkNotification e (classifyEvent e (o_pubkey opts))) @
             calls_log (invoked (subscribers (c_type (classifyEvent e (o_pubkey opts))) st)
               (mkNotification e (classifyEvent e (o_pubkey opts))))
               (mkNotification e (classifyEvent e (o_pubkey opts)))"
    and "onEvent_calls (snd (handleEvent opts st e)) = onEvent_calls st"
  using assms
  by (simp_all add: handleEvent_def Let_def emit_eq set_has_def invoked_all)

lemma handleEvent_throw_urgent:
  assumes "\<not> (o_dedup opts \<and> ev_id e \<in> set (seen st))"
    and "\<not> some_throws (subscribers ''notification'' st) (mkNotification e (classifyEvent e (o_pubkey opts)))"
    and "\<not> some_throws (subscribers (c_type (classifyEvent e (o_pubkey opts))) st)
           (mkNotification e (classifyEvent e (o_pubkey opts)))"
    and "c_priority (classifyEvent e (o_pubkey opts)) = ''high''"
    and "some_throws (subscribers ''urgent'' st) (mkNotification e (classifyEvent e (o_pubkey opts)))"
  shows "fst (handleEvent opts st e) = Throws"
    and "emitted (snd (handleEvent opts st e)) =
           emitted st @
             [(''notification'', mkNotification e (classifyEvent e (o_pubkey opts))),
              (c_type (classifyEvent e (o_pubkey opts)),
               mkNotification e (classifyEvent e (o_pubkey opts))),
              (''urgent'', mkNotification e (classifyEvent e (o_pubkey opts)))]"
    and "delivered (snd (handleEvent opts st e)) =
           delivered st @
             calls_log (subscribers ''notification'' st)
               (mkNotification e (classifyEvent e (o_pubkey opts))) @
             calls_log (subscribers (c_type (classifyEvent e (o_pubkey opts))) st)
               (mkNotification e (classifyEvent e (o_pubkey opts))) @
             calls_log (invoked (subscribers ''urgent'' st)
               (mkNotification e (classifyEvent e (o_pubkey opts))))
               (mkNotification e (classifyEvent e (o_pubkey opts)))"
    and "onEvent_calls (snd (handleEvent opts st e)) = onEvent_calls st"
  using assms
  by (simp_all add: handleEvent_def Let_def emit_eq set_has_def invoked_all)

lemma handleEvent_no_throw:
  assumes "\<not> (o_dedup opts \<and> ev_id e \<in> set (seen st))"
    and "\<not> some_throws (subscribers ''notification'' st) (mkNotification e (classifyEvent e (o_pubkey opts)))"
    and "\<not> some_throws (subscribers (c_type (classifyEvent e (o_pubkey opts))) st)
           (mkNotification e (classifyEvent e (o_pubkey opts)))"
    and "c_priority (classifyEvent e (o_pubkey opts)) = ''high'' \<longrightarrow>
         \<not> some_throws (subscribers ''urgent'' st) (mkNotification e (classifyEvent e (o_pubkey opts)))"
  shows "fst (handleEvent opts st e) = Returns"
    and "emitted (snd (handleEvent opts st e)) =
           emitted st @
             map (\<lambda>t. (t, mkNotification e (classifyEvent e (o_pubkey opts))))
               ([''notification'', c_type (classifyEvent e (o_pubkey opts))] @
                (if c_priority (classifyEvent e (o_pubkey opts)) = ''high''
                 then [''urgent''] else []))"
    and "delivered (snd (handleEvent opts st e)) =
           delivered st @
             calls_log (subscribers ''notification'' st)
               (mkNotification e (classifyEvent e (o_pubkey opts))) @
             calls_log (subscribers (c_type (classifyEvent e (o_pubkey opts))) st)
               (mkNotification e (classifyEvent e (o_pubkey opts))) @
             (if c_priority (classifyEvent e (o_pubkey opts)) = ''high''
              then calls_log (subscribers ''urgent'' st)
                     (mkNotification e (classifyEvent e (o_pubkey opts)))
              else [])"
    and "onEvent_calls (snd (handleEvent (opts\<lparr>o_onEvent := Some cb\<rparr>) st e)) =
           onEvent_calls st @ [mkNotification e (classifyEvent e (o_pubkey opts))]"
proof -
  show "fst (handleEvent opts st e) = Returns"
    using assms by (simp add: handleEvent_def Let_def emit_eq set_has_def invoked_all)
  show "emitted (snd (handleEvent opts st e)) =
           emitted st @
             map (\<lambda>t. (t, mkNotification e (classifyEvent e (o_pubkey opts))))
               ([''notification'', c_type (classifyEvent e (o_pubkey opts))] @
                (if c_priority (classifyEvent e (o_pubkey opts)) = ''high''
                 then [''urgent''] else []))"
    using assms by (simp add: handleEvent_def Let_def emit_eq set_has_def invoked_all)
  show "delivered (snd (handleEvent opts st e)) =
           delivered st @
             calls_log (subscribers ''notification'' st)
               (mkNotification e (classifyEvent e (o_pubkey opts))) @
             calls_log (subscribers (c_type (classifyEvent e (o_pubkey opts))) st)
               (mkNotification e (classifyEvent e (o_pubkey opts))) @
             (if c_priority (classifyEvent e (o_pubkey opts)) = ''high''
              then calls_log (subscribers ''urgent'' st)
                     (mkNotification e (classifyEvent e (o_pubkey opts)))
              else [])"
    using assms by (simp add: handleEvent_def Let_def emit_eq set_has_def invoked_all)
  show "onEvent_calls (snd (handleEvent (opts\<lparr>o_onEvent := Some cb\<rparr>) st e)) =
           onEvent_calls st @ [mkNotification e (classifyEvent e (o_pubkey opts))]"
    using assms
    by (cases "cb (mkNotification e (classifyEvent e (o_pubkey opts)))")
      (simp_all add: handleEvent_def Let_def emit_eq set_has_def invoked_all call_onEvent_def)
qed

text \<open>
  C9, amended. An exception thrown by the \<open>onEvent\<close> callback is contained:
  \<open>handleEvent\<close> ends the same way and with the same state whether the callback throws
  or returns. Watermark and dedup window after \<open>handleEvent\<close> are the same as without
  any user code. When no subscriber of a topic the notification is published on throws,
  \<open>handleEvent\<close> returns normally after emitting on \<open>notification\<close>, on the per-type
  topic and, for priority high, on \<open>urgent\<close>, after invoking every subscriber of these
  topics in this order, and after invoking the callback. An exception thrown by a
  subscriber is not caught: \<open>handleEvent\<close> ends with it; of the topic it was thrown on,
  the subscribers registered after the throwing one are not invoked; the topics after
  that one are not emitted on; the callback is not invoked.
\<close>
theorem handleEvent_user_errors:
  "(let c = classifyEvent e (o_pubkey opts);
        n = mkNotification e c;
        fresh = (\<not> (o_dedup opts \<and> ev_id e \<in> set (seen st)));
        thrN = some_throws (subscribers ''notification'' st) n;
        thrT = some_throws (subscribers (c_type c) st) n;
        thrU = (c_priority c = ''high'' \<and> some_throws (subscribers ''urgent'' st) n);
        r = handleEvent opts st e
    in
      handleEvent (opts\<lparr>o_onEvent := Some cb\<rparr>) st e =
        handleEvent (opts\<lparr>o_onEvent := Some cb'\<rparr>) st e \<and>
      seen (snd r) =
        seen (snd (handleEvent (opts\<lparr>o_onEvent := None\<rparr>) (st\<lparr>listeners := []\<rparr>) e)) \<and>
      latestTimestamp (snd r) =
        latestTimestamp (snd (handleEvent (opts\<lparr>o_onEvent := None\<rparr>) (st\<lparr>listeners := []\<rparr>) e)) \<and>
      ((\<forall>l \<in> set (listeners st). l_handler l n = Returns) \<longrightarrow> fst r = Returns) \<and>
      (fresh \<and> \<not> thrN \<and> \<not> thrT \<and> \<not> thrU \<longrightarrow>
         fst r = Returns \<and>
         emitted (snd r) =
           emitted st @
             map (\<lambda>t. (t, n))
               ([''notification'', c_type c] @ (if c_priority c = ''high'' then [''urgent''] else [])) \<and>
         delivered (snd r) =
           delivered st @ calls_log (subscribers ''notification'' st) n @
             calls_log (subscribers (c_type c) st) n @
             (if c_priority c = ''high'' then calls_log (subscribers ''urgent'' st) n else []) \<and>
         onEvent_calls (snd (handleEvent (opts\<lparr>o_onEvent := Some cb\<rparr>) st e)) =
           onEvent_calls st @ [n]) \<and>
      (fresh \<and> thrN \<longrightarrow>
         fst r = Throws \<and>
         emitted (snd r) = emitted st @ [(''notification'', n)] \<and>
         delivered (snd r) =
           delivered st @ calls_log (invoked (subscribers ''notification'' st) n) n \<and>
         onEvent_calls (snd r) = onEvent_calls st) \<and>
      (fresh \<and> \<not> thrN \<and> thrT \<longrightarrow>
         fst r = Throws \<and>
         emitted (snd r) = emitted st @ [(''notification'', n), (c_type c, n)] \<and>
         delivered (snd r) =
           delivered st @ calls_log (subscribers ''notification'' st) n @
             calls_log (invoked (subscribers (c_type c) st) n) n \<and>
         onEvent_calls (snd r) = onEvent_calls st) \<and>
      (fresh \<and> \<not> thrN \<and> \<not> thrT \<and> thrU \<longrightarrow>
         fst r = Throws \<and>
         emitted (snd r) =
           emitted st @ [(''notification'', n), (c_type c, n), (''urgent'', n)] \<and>
         delivered (snd r) =
           delivered st @ calls_log (subscribers ''notification'' st) n @
             calls_log (subscribers (c_type c) st) n @
             calls_log (invoked (subscribers ''urgent'' st) n) n \<and>
         onEvent_calls (snd r) = onEvent_calls st))"
  unfolding Let_def
proof (intro conjI impI; (elim conjE)?)
  show "handleEvent (opts\<lparr>o_onEvent := Some cb\<rparr>) st e =
        handleEvent (opts\<lparr>o_onEvent := Some cb'\<rparr>) st e"
    by (rule handleEvent_callback_irrelevant)
qed (simp_all add: handleEvent_state_independent [symmetric] handleEvent_returns
    handleEvent_no_throw handleEvent_throw_notification handleEvent_throw_type
    handleEvent_throw_urgent)

theorem handleEvent_user_errors_witness:
  "handleEvent (sampleOptions\<lparr>o_onEvent := Some throwing\<rparr>) (initialInbox 0 [urgentListener])
      (testEvent 4 [[''p'', ''P'']]) =
     handleEvent (sampleOptions\<lparr>o_onEvent := Some returning\<rparr>) (initialInbox 0 [urgentListener])
      (testEvent 4 [[''p'', ''P'']]) \<and>
   fst (handleEvent (sampleOptions\<lparr>o_onEvent := Some throwing\<rparr>) (initialInbox 0 [urgentListener])
      (testEvent 4 [[''p'', ''P'']])) = Returns \<and>
   map fst (emitted (snd (handleEvent (sampleOptions\<lparr>o_onEvent := Some throwing\<rparr>)
      (initialInbox 0 [urgentListener]) (testEvent 4 [[''p'', ''P'']])))) =
     [''notification'', ''dm'', ''urgent''] \<and>
   map (\<lambda>d. (fst d, fst (snd d))) (delivered (snd (handleEvent (sampleOptions\<lparr>o_onEvent := Some throwing\<rparr>)
      (initialInbox 0 [urgentListener]) (testEvent 4 [[''p'', ''P'']])))) =
     [(''urgent'', ''pager'')] \<and>
   fst (handleEvent sampleOptions (initialInbox 0 [badListener, lateListener, urgentListener])
      (testEvent 4 [[''p'', ''P'']])) = Throws \<and>
   map fst (emitted (snd (handleEvent sampleOptions
      (initialInbox 0 [badListener, lateListener, urgentListener])
      (testEvent 4 [[''p'', ''P'']])))) = [''notification''] \<and>
   map (\<lambda>d. (fst d, fst (snd d))) (delivered (snd (handleEvent sampleOptions
      (initialInbox 0 [badListener, lateListener, urgentListener])
      (testEvent 4 [[''p'', ''P'']])))) = [(''notification'', ''bad'')] \<and>
   fst (handleEvent sampleOptions (initialInbox 0 [lateListener, dmListener, urgentListener])
      (testEvent 4 [[''p'', ''P'']])) = Throws \<and>
   map fst (emitted (snd (handleEvent sampleOptions
      (initialInbox 0 [lateListener, dmListener, urgentListener])
      (testEvent 4 [[''p'', ''P'']])))) = [''notification'', ''dm''] \<and>
   map (\<lambda>d. (fst d, fst (snd d))) (delivered (snd (handleEvent sampleOptions
      (initialInbox 0 [lateListener, dmListener, urgentListener])
      (testEvent 4 [[''p'', ''P'']])))) = [(''notification'', ''late''), (''dm'', ''dmbad'')]"
  using handleEvent_user_errors [where opts = "sampleOptions\<lparr>o_onEvent := Some throwing\<rparr>"
      and cb = throwing and cb' = returning and st = "initialInbox 0 [urgentListener]"
      and e = "testEvent 4 [[''p'', ''P'']]"]
    handleEvent_user_errors [where opts = sampleOptions and cb = throwing and cb' = returning
      and st = "initialInbox 0 [badListener, lateListener, urgentListener]"
      and e = "testEvent 4 [[''p'', ''P'']]"]
    handleEvent_user_errors [where opts = sampleOptions and cb = throwing and cb' = returning
      and st = "initialInbox 0 [lateListener, dmListener, urgentListener]"
      and e = "testEvent 4 [[''p'', ''P'']]"]
  by (simp add: sampleOptions_def initialInbox_def urgentListener_def badListener_def
      lateListener_def dmListener_def
      throwing_def returning_def classifyEvent_def KINDS_defs testEvent_def handleEvent_def
      emit_def Let_def set_has_def set_add_def trim_seen_def call_onEvent_def)

section \<open>Properties of the webhook dispatcher\<close>

subsection \<open>Signatures\<close>

lemma verifySignature_expected:
  "secret \<noteq> [] \<Longrightarrow>
   verifySignature H B body (Some (expected_signature H secret body)) (Some secret) = Inr True"
  by (simp add: verifySignature_def falsy_def expected_signature_def timingSafeEqual_def)

lemma signature_header_Some:
  "signature_header H secret body = Some h \<Longrightarrow>
   \<exists>k. secret = Some k \<and> k \<noteq> [] \<and> h = expected_signature H k body"
  by (cases secret)
    (auto simp: signature_header_def sign_def falsy_def expected_signature_def Let_def
      split: if_splits)

lemma verifySignature_absent:
  "falsy sg \<or> falsy k \<Longrightarrow> verifySignature H B body sg k = Inr False"
  by (auto simp: verifySignature_def)

lemma verifySignature_length:
  "sg = Some s \<Longrightarrow> k = Some key \<Longrightarrow> length s \<noteq> length (expected_signature H key body) \<Longrightarrow>
   verifySignature H B body sg k = Inr False"
  by (simp add: verifySignature_def Let_def)

text \<open>
  C8. For every payload and every non-empty secret, \<open>verifySignature\<close> accepts the
  header value \<open>sha256=\<close> followed by the hex HMAC of the payload under the secret,
  which is the header \<open>sendRequest\<close> attaches; it returns false when the signature or
  the secret is absent or empty, and when the length of the signature differs from the
  length of the expected one.
\<close>
theorem verifySignature_round_trip:
  "(secret \<noteq> [] \<longrightarrow>
      verifySignature H B body (Some (''sha256='' @ H secret body)) (Some secret) = Inr True) \<and>
   (signature_header H k body = Some h \<longrightarrow> verifySignature H B body (Some h) k = Inr True) \<and>
   (sg = None \<or> sg = Some [] \<or> k = None \<or> k = Some [] \<longrightarrow>
      verifySignature H B body sg k = Inr False) \<and>
   (sg = Some s \<and> k = Some key \<and> length s \<noteq> length (''sha256='' @ H key body) \<longrightarrow>
      verifySignature H B body sg k = Inr False)"
proof (intro conjI impI)
  assume "secret \<noteq> []"
  then show "verifySignature H B body (Some (''sha256='' @ H secret body)) (Some secret) = Inr True"
    using verifySignature_expected [of secret H B body] by (simp add: expected_signature_def)
next
  assume "signature_header H k body = Some h"
  then obtain key where "k = Some key" "key \<noteq> []" "h = expected_signature H key body"
    using signature_header_Some by blast
  then show "verifySignature H B body (Some h) k = Inr True"
    by (simp add: verifySignature_expected)
next
  assume "sg = None \<or> sg = Some [] \<or> k = None \<or> k = Some []"
  then have "falsy sg \<or> falsy k" by (auto simp: falsy_def)
  then show "verifySignature H B body sg k = Inr False" by (rule verifySignature_absent)
next
  assume "sg = Some s \<and> k = Some key \<and> length s \<noteq> length (''sha256='' @ H key body)"
  then show "verifySignature H B body sg k = Inr False"
    using verifySignature_length [of sg s k key H body B] by (simp add: expected_signature_def)
qed

theorem verifySignature_round_trip_witness:
  "verifySignature sampleDigest sampleBytes ''{}'' (Some (''sha256='' @ sampleDigest ''my-secret'' ''{}''))
      (Some ''my-secret'') = Inr True \<and>
   signature_header sampleDigest (Some ''my-secret'') ''{}'' = Some ''sha256=terces-ym{}'' \<and>
   verifySignature sampleDigest sampleBytes ''{}'' (Some ''sha256=terces-ym{}'') (Some ''my-secret'') = Inr True \<and>
   verifySignature sampleDigest sampleBytes ''payload'' (Some ''sig'') None = Inr False \<and>
   verifySignature sampleDigest sampleBytes ''{}'' (Some ''sha256=invalid'') (Some ''my-secret'') = Inr False"
proof -
  have h: "signature_header sampleDigest (Some ''my-secret'') ''{}'' = Some ''sha256=terces-ym{}''"
    by (simp add: signature_header_def sign_def falsy_def sampleDigest_def)
  have ne: "''my-secret'' \<noteq> []" by simp
  show ?thesis
    using verifySignature_round_trip [of "''my-secret''" sampleDigest sampleBytes "''{}''"
        "Some ''my-secret''" "''sha256=terces-ym{}''" "Some ''sha256=invalid''" "''sha256=invalid''" "''my-secret''"]
      verifySignature_round_trip [of "''my-secret''" sampleDigest sampleBytes "''payload''"
        None "''x''" "Some ''sig''" "''sig''" "''my-secret''"]
      h
    by (simp add: sampleDigest_def)
qed

subsection \<open>Batches\<close>

lemma flushBatch_nonempty:
  "batch st \<noteq> [] \<Longrightarrow>
   flushBatch opts now st =
     st\<lparr>batch := drop (nat (w_maxBatchSize opts)) (batch st),
        batchTimer := False,
        requests := requests st @
          [\<lparr>p_event = ''batch'', p_timestamp = now, p_notification = None,
            p_count = Some (length (take (nat (w_maxBatchSize opts)) (batch st))),
            p_notifications = Some (take (nat (w_maxBatchSize opts)) (batch st))\<rparr>]\<rparr>"
  by (simp add: flushBatch_def splice0_def)

lemma flushBatch_empty: "batch st = [] \<Longrightarrow> flushBatch opts now st = st"
  by (simp add: flushBatch_def)

lemma flushBatch_batch_ok:
  assumes "0 \<le> w_maxBatchSize opts" and "p \<in> set (requests (flushBatch opts now st))"
  shows "p \<in> set (requests st) \<or> batch_ok (w_maxBatchSize opts) p"
proof (cases "batch st = []")
  case True
  with assms show ?thesis by (simp add: flushBatch_empty)
next
  case False
  have "int (length (take (nat (w_maxBatchSize opts)) (batch st))) \<le> w_maxBatchSize opts"
    using assms(1) by simp
  with assms(2) False show ?thesis
    by (auto simp: flushBatch_nonempty batch_ok_def)
qed

lemma flushBatch_conserves:
  "concat (map carried (requests (flushBatch opts now st))) @ batch (flushBatch opts now st) =
   concat (map carried (requests st)) @ batch st"
  by (cases "batch st = []") (simp_all add: flushBatch_empty flushBatch_nonempty carried_def)

lemma flushBatch_timer [simp]:
  "timerPending (flushBatch opts now st) = timerPending st"
  "batch st \<noteq> [] \<Longrightarrow> batchTimer (flushBatch opts now st) = False"
  by (cases "batch st = []"; simp add: flushBatch_empty flushBatch_nonempty)+

text \<open>The four ways \<open>send\<close> can go.\<close>

lemma send_cases:
  obtains (dropped) "\<not> accepted opts n" "send opts now n st = st"
  | (flushed) st' where "accepted opts n" "0 < w_batchMs opts"
      "send opts now n st = flushBatch opts now st'"
      "requests st' = requests st" "batch st' = batch st @ [n]"
      "timerPending st' \<longrightarrow> timerPending st \<and> \<not> batchTimer st"
  | (queued) "accepted opts n" "0 < w_batchMs opts"
      "requests (send opts now n st) = requests st"
      "batch (send opts now n st) = batch st @ [n]"
  | (immediate) "accepted opts n" "\<not> 0 < w_batchMs opts"
      "send opts now n st =
         st\<lparr>requests := requests st @
              [\<lparr>p_event = ''notification'', p_timestamp = now,
                p_notification = Some n, p_count = None, p_notifications = None\<rparr>]\<rparr>"
proof (cases "accepted opts n")
  case False
  then have "send opts now n st = st"
    by (auto simp: send_def accepted_def split: option.splits)
  with False show ?thesis by (rule dropped)
next
  case acc: True
  then have pass: "\<not> (case w_events opts of None \<Rightarrow> False | Some es \<Rightarrow> n_type n \<notin> set es)"
    "\<not> (w_urgentOnly opts \<and> n_priority n \<noteq> ''high'')"
    by (simp_all add: accepted_def)
  show ?thesis
  proof (cases "0 < w_batchMs opts")
    case False
    with pass have "send opts now n st =
         st\<lparr>requests := requests st @
              [\<lparr>p_event = ''notification'', p_timestamp = now,
                p_notification = Some n, p_count = None, p_notifications = None\<rparr>]\<rparr>"
      unfolding send_def by auto
    with acc False show ?thesis by (rule immediate)
  next
    case bm: True
    let ?st1 = "st\<lparr>batch := batch st @ [n]\<rparr>"
    show ?thesis
    proof (cases "int (length (batch ?st1)) \<ge> w_maxBatchSize opts")
      case True
      let ?st' = "if batchTimer ?st1 then ?st1\<lparr>timerPending := False\<rparr> else ?st1"
      from pass bm True have "send opts now n st = flushBatch opts now ?st'"
        unfolding send_def Let_def by auto
      moreover have "requests ?st' = requests st" "batch ?st' = batch st @ [n]"
        "timerPending ?st' \<longrightarrow> timerPending st \<and> \<not> batchTimer st" by simp_all
      ultimately show ?thesis using acc bm by (intro flushed [of ?st'])
    next
      case False
      with pass bm have "send opts now n st =
          (if \<not> batchTimer ?st1 then ?st1\<lparr>batchTimer := True, timerPending := True\<rparr> else ?st1)"
        unfolding send_def Let_def by auto
      then have "requests (send opts now n st) = requests st"
        "batch (send opts now n st) = batch st @ [n]" by simp_all
      with acc bm show ?thesis by (rule queued)
    qed
  qed
qed

lemma send_batch_ok:
  assumes "0 \<le> w_maxBatchSize opts" and "p \<in> set (requests (send opts now n st))"
  shows "p \<in> set (requests st) \<or> batch_ok (w_maxBatchSize opts) p"
proof (cases rule: send_cases [where opts = opts and n = n and now = now and st = st])
  case dropped
  with assms show ?thesis by simp
next
  case (flushed st')
  with assms flushBatch_batch_ok [of opts p now st'] show ?thesis by simp
next
  case queued
  with assms show ?thesis by simp
next
  case immediate
  with assms show ?thesis by (auto simp: batch_ok_def)
qed

lemma step_batch_ok:
  assumes "0 \<le> w_maxBatchSize opts" and "p \<in> set (requests (step opts st (now, op)))"
  shows "p \<in> set (requests st) \<or> batch_ok (w_maxBatchSize opts) p"
proof (cases op)
  case (Send n)
  with assms send_batch_ok [of opts p now n st] show ?thesis by simp
next
  case TimerFires
  with assms flushBatch_batch_ok [of opts p now "st\<lparr>timerPending := False\<rparr>"] show ?thesis
    by (simp add: timer_fires_def split: if_splits)
next
  case Close
  with assms flushBatch_batch_ok [of opts p now "st\<lparr>batchTimer := False, timerPending := False\<rparr>"]
    flushBatch_batch_ok [of opts p now st]
  show ?thesis
    by (simp add: close_def Let_def split: if_splits)
qed

lemma run_snoc: "run opts (ops @ [op]) = step opts (run opts ops) op"
  by (simp add: run_def)

lemma run_batch_ok:
  "0 \<le> w_maxBatchSize opts \<Longrightarrow> p \<in> set (requests (run opts ops)) \<Longrightarrow>
   batch_ok (w_maxBatchSize opts) p"
proof (induction ops arbitrary: p rule: rev_induct)
  case Nil
  then show ?case by (simp add: run_def initialWebhook_def)
next
  case (snoc op ops)
  obtain now o' where op: "op = (now, o')" by (cases op)
  from snoc.prems(2) have "p \<in> set (requests (step opts (run opts ops) (now, o')))"
    by (simp add: run_snoc op)
  with snoc.prems(1) have "p \<in> set (requests (run opts ops)) \<or> batch_ok (w_maxBatchSize opts) p"
    by (rule step_batch_ok)
  with snoc show ?case by blast
qed

lemma submitted_append: "submitted opts (xs @ ys) = submitted opts xs @ submitted opts ys"
  by (induction opts xs rule: submitted.induct) simp_all

lemma send_conserves:
  assumes "0 < w_batchMs opts"
  shows "concat (map carried (requests (send opts now n st))) @ batch (send opts now n st) =
         (concat (map carried (requests st)) @ batch st) @ (if accepted opts n then [n] else [])"
proof (cases rule: send_cases [where opts = opts and n = n and now = now and st = st])
  case dropped
  then show ?thesis by simp
next
  case (flushed st')
  then show ?thesis using flushBatch_conserves [of opts now st'] by simp
next
  case queued
  then show ?thesis by simp
next
  case immediate
  with assms show ?thesis by simp
qed

lemma step_conserves:
  assumes "0 < w_batchMs opts"
  shows "concat (map carried (requests (step opts st (now, op)))) @ batch (step opts st (now, op)) =
   (concat (map carried (requests st)) @ batch st) @ submitted opts [(now, op)]"
proof (cases op)
  case (Send n)
  then show ?thesis using send_conserves [OF assms, of now n st] by simp
next
  case TimerFires
  then show ?thesis
    using flushBatch_conserves [of opts now "st\<lparr>timerPending := False\<rparr>"]
    by (simp add: timer_fires_def)
next
  case Close
  then show ?thesis
    using flushBatch_conserves [of opts now "st\<lparr>batchTimer := False, timerPending := False\<rparr>"]
      flushBatch_conserves [of opts now st]
    by (simp add: close_def Let_def)
qed

lemma run_conserves:
  assumes "0 < w_batchMs opts"
  shows "concat (map carried (requests (run opts ops))) @ batch (run opts ops) = submitted opts ops"
proof (induction ops rule: rev_induct)
  case Nil
  then show ?case by (simp add: run_def initialWebhook_def)
next
  case (snoc op ops)
  obtain now o' where op: "op = (now, o')" by (cases op)
  show ?case
    unfolding run_snoc op using step_conserves [OF assms, of "run opts ops" now o'] snoc
    by (simp add: submitted_append)
qed

lemma run_timer_invariant: "timerPending (run opts ops) \<Longrightarrow> batchTimer (run opts ops)"
proof (induction ops rule: rev_induct)
  case Nil
  then show ?case by (simp add: run_def initialWebhook_def)
next
  case (snoc op ops)
  obtain now o' where op: "op = (now, o')" by (cases op)
  let ?st = "run opts ops"
  show ?case
  proof (cases o')
    case (Send n)
    show ?thesis
    proof (cases rule: send_cases [where opts = opts and n = n and now = now and st = ?st])
      case dropped
      with snoc Send op show ?thesis by (simp add: run_snoc)
    next
      case (flushed st')
      with snoc Send op show ?thesis by (auto simp: run_snoc)
    next
      case queued
      with snoc Send op show ?thesis
        by (auto simp: run_snoc send_def Let_def accepted_def split: if_splits option.splits)
    next
      case immediate
      with snoc Send op show ?thesis by (simp add: run_snoc)
    qed
  next
    case TimerFires
    with snoc op show ?thesis by (simp add: run_snoc timer_fires_def split: if_splits)
  next
    case Close
    with snoc op show ?thesis by (simp add: run_snoc close_def Let_def split: if_splits)
  qed
qed

lemma no_timer_after_flush:
  assumes "timerPending st \<longrightarrow> batchTimer st"
  shows "\<not> timerPending (timer_fires opts now st)"
    and "\<not> timerPending (close opts now st)"
    and "accepted opts n \<Longrightarrow> 0 < w_batchMs opts \<Longrightarrow>
         w_maxBatchSize opts \<le> int (length (batch st)) + 1 \<Longrightarrow>
         \<not> timerPending (send opts now n st) \<and> \<not> batchTimer (send opts now n st)"
proof -
  show "\<not> timerPending (timer_fires opts now st)" by (simp add: timer_fires_def)
  show "\<not> timerPending (close opts now st)" using assms by (auto simp: close_def Let_def)
  assume a: "accepted opts n" "0 < w_batchMs opts" "w_maxBatchSize opts \<le> int (length (batch st)) + 1"
  then have "send opts now n st =
      flushBatch opts now
        (if batchTimer st then st\<lparr>batch := batch st @ [n], timerPending := False\<rparr>
         else st\<lparr>batch := batch st @ [n]\<rparr>)"
    unfolding send_def Let_def accepted_def by auto
  then show "\<not> timerPending (send opts now n st) \<and> \<not> batchTimer (send opts now n st)"
    using assms by auto
qed

text \<open>
  C10. For a size bound \<open>maxBatchSize\<close> that is not negative: \<open>flushBatch\<close> on a
  non-empty queue sends one batch envelope holding the first \<open>maxBatchSize\<close>
  notifications of the queue (all of them when there are fewer), in queue order, with
  \<open>count\<close> equal to their number, and leaves the others in the queue; it clears
  \<open>batchTimer\<close> and arms no timer. When more than \<open>maxBatchSize\<close> notifications are
  queued, exactly \<open>maxBatchSize\<close> are sent and a non-empty remainder stays. Over every
  sequence of \<open>send\<close>, timer expiry and \<open>close\<close> from the initial state: every batch
  envelope handed to \<open>sendRequest\<close> has \<open>count\<close> equal to the length of its
  notifications and at most \<open>maxBatchSize\<close> of them; in batching mode the envelopes in
  order, followed by the queue, hold exactly the accepted notifications in submission
  order; and no timeout is pending after a step that flushes.
\<close>
theorem flushBatch_envelope:
  assumes "0 \<le> w_maxBatchSize opts"
  shows
    "(batch st \<noteq> [] \<longrightarrow>
        requests (flushBatch opts now st) =
          requests st @
            [\<lparr>p_event = ''batch'', p_timestamp = now, p_notification = None,
              p_count = Some (length (take (nat (w_maxBatchSize opts)) (batch st))),
              p_notifications = Some (take (nat (w_maxBatchSize opts)) (batch st))\<rparr>] \<and>
        int (length (take (nat (w_maxBatchSize opts)) (batch st))) \<le> w_maxBatchSize opts \<and>
        batch st = take (nat (w_maxBatchSize opts)) (batch st) @ batch (flushBatch opts now st) \<and>
        \<not> batchTimer (flushBatch opts now st) \<and>
        timerPending (flushBatch opts now st) = timerPending st) \<and>
     (int (length (batch st)) > w_maxBatchSize opts \<longrightarrow>
        int (length (take (nat (w_maxBatchSize opts)) (batch st))) = w_maxBatchSize opts \<and>
        batch (flushBatch opts now st) = drop (nat (w_maxBatchSize opts)) (batch st) \<and>
        batch (flushBatch opts now st) \<noteq> []) \<and>
     (\<forall>p \<in> set (requests (run opts ops)). batch_ok (w_maxBatchSize opts) p) \<and>
     (0 < w_batchMs opts \<longrightarrow>
        concat (map carried (requests (run opts ops))) @ batch (run opts ops) =
          submitted opts ops) \<and>
     \<not> timerPending (timer_fires opts now (run opts ops)) \<and>
     \<not> timerPending (close opts now (run opts ops)) \<and>
     (accepted opts n \<and> 0 < w_batchMs opts \<and>
      w_maxBatchSize opts \<le> int (length (batch (run opts ops))) + 1 \<longrightarrow>
        \<not> timerPending (send opts now n (run opts ops)) \<and>
        \<not> batchTimer (send opts now n (run opts ops)))"
proof -
  have inv: "timerPending (run opts ops) \<longrightarrow> batchTimer (run opts ops)"
    using run_timer_invariant by blast
  have one: "batch st \<noteq> [] \<longrightarrow>
        requests (flushBatch opts now st) =
          requests st @
            [\<lparr>p_event = ''batch'', p_timestamp = now, p_notification = None,
              p_count = Some (length (take (nat (w_maxBatchSize opts)) (batch st))),
              p_notifications = Some (take (nat (w_maxBatchSize opts)) (batch st))\<rparr>] \<and>
        int (length (take (nat (w_maxBatchSize opts)) (batch st))) \<le> w_maxBatchSize opts \<and>
        batch st = take (nat (w_maxBatchSize opts)) (batch st) @ batch (flushBatch opts now st) \<and>
        \<not> batchTimer (flushBatch opts now st) \<and>
        timerPending (flushBatch opts now st) = timerPending st"
    using assms by (auto simp: flushBatch_nonempty)
  have two: "int (length (batch st)) > w_maxBatchSize opts \<longrightarrow>
        int (length (take (nat (w_maxBatchSize opts)) (batch st))) = w_maxBatchSize opts \<and>
        batch (flushBatch opts now st) = drop (nat (w_maxBatchSize opts)) (batch st) \<and>
        batch (flushBatch opts now st) \<noteq> []"
  proof
    assume gt: "int (length (batch st)) > w_maxBatchSize opts"
    with assms have ne: "batch st \<noteq> []" by auto
    from gt assms have "nat (w_maxBatchSize opts) < length (batch st)" by simp
    with assms ne show "int (length (take (nat (w_maxBatchSize opts)) (batch st))) = w_maxBatchSize opts \<and>
        batch (flushBatch opts now st) = drop (nat (w_maxBatchSize opts)) (batch st) \<and>
        batch (flushBatch opts now st) \<noteq> []"
      by (simp add: flushBatch_nonempty)
  qed
  have three: "\<forall>p \<in> set (requests (run opts ops)). batch_ok (w_maxBatchSize opts) p"
    using assms run_batch_ok by blast
  have four: "0 < w_batchMs opts \<longrightarrow>
        concat (map carried (requests (run opts ops))) @ batch (run opts ops) = submitted opts ops"
    using run_conserves by blast
  from one two three four no_timer_after_flush [OF inv]
  show ?thesis by blast
qed

theorem flushBatch_envelope_witness:
  "requests (run (batchingOptions 10)
      [(0, Send (sampleNote ''a'' ''1'')), (1, Send (sampleNote ''b'' ''2'')),
       (2, Send (sampleNote ''c'' ''3'')), (50, TimerFires)]) =
     [\<lparr>p_event = ''batch'', p_timestamp = 50, p_notification = None, p_count = Some 3,
       p_notifications =
         Some [sampleNote ''a'' ''1'', sampleNote ''b'' ''2'', sampleNote ''c'' ''3'']\<rparr>] \<and>
   flushBatch (batchingOptions 2) 7
      \<lparr>batch = [sampleNote ''a'' ''1'', sampleNote ''b'' ''2'', sampleNote ''c'' ''3''],
       batchTimer = True, timerPending = False, requests = []\<rparr> =
     \<lparr>batch = [sampleNote ''c'' ''3''], batchTimer = False, timerPending = False,
      requests =
        [\<lparr>p_event = ''batch'', p_timestamp = 7, p_notification = None, p_count = Some 2,
          p_notifications = Some [sampleNote ''a'' ''1'', sampleNote ''b'' ''2'']\<rparr>]\<rparr>"
proof -
  have a: "0 \<le> w_maxBatchSize (batchingOptions 2)" by (simp add: batchingOptions_def)
  show ?thesis
    using flushBatch_envelope [OF a, where now = 7 and ops = "[]" and n = "sampleNote ''a'' ''1''"
      and st = "\<lparr>batch = [sampleNote ''a'' ''1'', sampleNote ''b'' ''2'', sampleNote ''c'' ''3''],
       batchTimer = True, timerPending = False, requests = []\<rparr>"]
    by (simp add: batchingOptions_def run_def initialWebhook_def send_def timer_fires_def
        flushBatch_def splice0_def Let_def)
qed

end
